theory Spec2Isabelle
  imports Main "HOL-Library.Signed_Division"
begin

section \<open>The diagonal source transfer preconditioner (examples/maxwell-solver/DST/DST.cpp)\<close>

text \<open>
  The class \<^verbatim>\<open>DST\<close> is embedded as a record of its members and its member functions as
  functions that take the object and return it updated. The numerical library the class is
  built on (vectors of doubles, sparse matrices, the KLU factorisation, meshes, finite
  element spaces, the projection of a coefficient) is not part of the three source files;
  it is taken as a parameter: a record \<open>mfem\<close> of the operations the code calls, over an
  uninterpreted vector type \<open>'v\<close> and an uninterpreted scalar type \<open>'r\<close>. Nothing is assumed
  of these operations except where a theorem says so.
\<close>

subsection \<open>Errors\<close>

text \<open>
  \<^verbatim>\<open>MFEM_VERIFY\<close> aborts the program with its message. A read past the end of an array and
  an integer division by zero have no defined result in C++; the model stops there too.
\<close>

datatype error = MFEM_Abort string | OutOfBounds | DivisionByZero

fun foldE :: "('a \<Rightarrow> 's \<Rightarrow> error + 's) \<Rightarrow> 'a list \<Rightarrow> 's \<Rightarrow> error + 's" where
  "foldE f [] s = Inr s"
| "foldE f (x # xs) s = (case f x s of Inl e \<Rightarrow> Inl e | Inr s' \<Rightarrow> foldE f xs s')"

subsection \<open>The data model\<close>

text \<open>
  \<^verbatim>\<open>MeshPartition\<close> and \<^verbatim>\<open>DofMap\<close> are collaborators: the records hold what the class reads
  from them. \<open>patch_h ip\<close> is \<^verbatim>\<open>GetUniformMeshElementSize(povlp->patch_mesh[ip])\<close>,
  \<open>fespaces_tvsize ip\<close> is \<^verbatim>\<open>ovlp_prob->fespaces[ip]->GetTrueVSize()\<close>.
  An array indexed by a patch or sweep number is a function on \<open>int\<close>. The \<^verbatim>\<open>int\<close>s of the
  source count patches and sweeps or are grid coordinates and offsets; they are integers
  here, the counts of a grid whose patches are allocated one by one being far from the
  bounds of the machine type.
\<close>

record 'r MeshPartition =
  p_nxyz :: "int list"
  p_nrpatch :: int
  p_subdomains :: "int \<Rightarrow> int \<Rightarrow> int \<Rightarrow> int"
  patch_h :: "int \<Rightarrow> 'r"

record DofMap =
  Dof2GlobalDof :: "int \<Rightarrow> int list"
  fespaces_tvsize :: "int \<Rightarrow> int"

record ('v, 'r, 'bf, 'ws) DST =
  bf :: 'bf
  Pmllength :: "'r list list"
  omega :: 'r
  ws :: 'ws
  nrlayers :: int
  dim :: int
  povlp :: "'r MeshPartition"
  nxyz :: "int list"
  nrpatch :: int
  subdomains :: "int \<Rightarrow> int \<Rightarrow> int \<Rightarrow> int"
  ovlp_prob :: DofMap
  PmlMat :: "int \<Rightarrow> 'v \<Rightarrow> 'v"
  PmlMatInv :: "int \<Rightarrow> 'v \<Rightarrow> 'v"
  nsweeps :: int
  sweeps :: "int \<Rightarrow> int \<Rightarrow> int"
  f_orig :: "int \<Rightarrow> 'v"
  f_transf :: "int \<Rightarrow> int \<Rightarrow> 'v"

text \<open>
  The library operations, named after the calls of the source:
  \<open>vnew n\<close> is \<^verbatim>\<open>Vector v(n)\<close> (contents not initialised), \<open>fill0 v\<close> is \<^verbatim>\<open>v = 0.0\<close>,
  \<open>vsize v\<close> is \<^verbatim>\<open>v.Size()\<close>, \<open>vadd a b\<close> is \<^verbatim>\<open>a += b\<close>, \<open>vneg a\<close> is \<^verbatim>\<open>a *= -1.0\<close>,
  \<open>norml2_below v\<close> is \<^verbatim>\<open>v.Norml2() < 1e-11\<close>, \<open>get_sub r dofs\<close> is the vector that
  \<^verbatim>\<open>r.GetSubVector(dofs, out)\<close> leaves in \<open>out\<close>, \<open>set_sub z dofs x\<close> is \<open>z\<close> after
  \<^verbatim>\<open>z.SetSubVector(dofs, x)\<close>. \<open>layer_len h n\<close> is the product \<^verbatim>\<open>h*nlayers\<close> and \<open>rzero\<close>
  is \<^verbatim>\<open>0.0\<close>. \<open>project_cutoff\<close> is the tail of \<^verbatim>\<open>GetCutOffSolution\<close>: the projection of the
  solution times the cut-off coefficient built from \<open>pmlh\<close>. The remaining fields are what
  the constructor calls.
\<close>

record ('v, 'r, 'bf, 'ws) mfem =
  vnew :: "int \<Rightarrow> 'v"
  fill0 :: "'v \<Rightarrow> 'v"
  vsize :: "'v \<Rightarrow> int"
  vadd :: "'v \<Rightarrow> 'v \<Rightarrow> 'v"
  vneg :: "'v \<Rightarrow> 'v"
  norml2_below :: "'v \<Rightarrow> bool"
  get_sub :: "'v \<Rightarrow> int list \<Rightarrow> 'v"
  set_sub :: "'v \<Rightarrow> int list \<Rightarrow> 'v \<Rightarrow> 'v"
  layer_len :: "'r \<Rightarrow> int \<Rightarrow> 'r"
  rzero :: 'r
  project_cutoff :: "'bf \<Rightarrow> 'r MeshPartition \<Rightarrow> DofMap \<Rightarrow> int \<Rightarrow> bool \<Rightarrow> 'r list list \<Rightarrow> 'v \<Rightarrow> 'v"
  global_tvsize :: "'bf \<Rightarrow> int"
  mesh_dimension :: "'bf \<Rightarrow> int"
  new_MeshPartition :: "'bf \<Rightarrow> int \<Rightarrow> int \<Rightarrow> int \<Rightarrow> int \<Rightarrow> int \<Rightarrow> 'r MeshPartition"
  new_DofMap :: "'bf \<Rightarrow> 'r MeshPartition \<Rightarrow> DofMap"
  pml_system_matrix :: "'r MeshPartition \<Rightarrow> DofMap \<Rightarrow> 'r \<Rightarrow> 'ws \<Rightarrow> int \<Rightarrow> int \<Rightarrow> 'v \<Rightarrow> 'v"
  klu_solver :: "('v \<Rightarrow> 'v) \<Rightarrow> 'v \<Rightarrow> 'v"

subsection \<open>Patch indices\<close>

text \<open>\<^verbatim>\<open>DST::Getijk\<close>: C++ integer division and remainder truncate towards zero.\<close>

definition Getijk :: "('v, 'r, 'bf, 'ws) DST \<Rightarrow> int \<Rightarrow> error + (int \<times> int \<times> int)" where
  "Getijk st ip =
     (if nxyz st ! 0 * nxyz st ! 1 = 0 then Inl DivisionByZero
      else
        let k = ip sdiv (nxyz st ! 0 * nxyz st ! 1);
            j = (ip - k * nxyz st ! 0 * nxyz st ! 1) sdiv nxyz st ! 0;
            i = (ip - k * nxyz st ! 0 * nxyz st ! 1) smod nxyz st ! 0
        in Inr (i, j, k))"

text \<open>\<^verbatim>\<open>DST::GetPatchId\<close>: outside two dimensions it reads \<^verbatim>\<open>ijk[2]\<close>.\<close>

definition GetPatchId :: "('v, 'r, 'bf, 'ws) DST \<Rightarrow> int list \<Rightarrow> error + int" where
  "GetPatchId st ijk =
     (if dim st = 2 then Inr (subdomains st (ijk ! 0) (ijk ! 1) 0)
      else if length ijk \<le> 2 then Inl OutOfBounds
      else Inr (subdomains st (ijk ! 0) (ijk ! 1) (ijk ! 2)))"

subsection \<open>The cut-off of a local solution\<close>

text \<open>
  \<^verbatim>\<open>DST::GetCutOffSolution\<close>: the widths \<open>pmlh\<close> of the transition bands are set from the
  directions; the windowed vector is the projection the library computes from them.
\<close>

definition cutoff_pmlh :: "('v, 'r, 'bf, 'ws) mfem \<Rightarrow> ('v, 'r, 'bf, 'ws) DST \<Rightarrow> int \<Rightarrow> int list \<Rightarrow> int \<Rightarrow> 'r list list" where
  "cutoff_pmlh env st ip directions nlayers =
     (let h = patch_h (povlp st) ip;
          pmlh = replicate (nat (dim st)) [rzero env, rzero env];
          pmlh = (if directions ! 0 = 1 then pmlh[0 := (pmlh ! 0)[1 := layer_len env h nlayers]] else pmlh);
          pmlh = (if directions ! 0 = - 1 then pmlh[0 := (pmlh ! 0)[0 := layer_len env h nlayers]] else pmlh);
          pmlh = (if directions ! 1 = 1 then pmlh[1 := (pmlh ! 1)[1 := layer_len env h nlayers]] else pmlh);
          pmlh = (if directions ! 1 = - 1 then pmlh[1 := (pmlh ! 1)[0 := layer_len env h nlayers]] else pmlh)
      in pmlh)"

definition GetCutOffSolution :: "('v, 'r, 'bf, 'ws) mfem \<Rightarrow> ('v, 'r, 'bf, 'ws) DST \<Rightarrow> 'v \<Rightarrow> int \<Rightarrow> int list \<Rightarrow> int \<Rightarrow> bool \<Rightarrow> 'v" where
  "GetCutOffSolution env st sol ip directions nlayers local =
     project_cutoff env (bf st) (povlp st) (ovlp_prob st) ip local
       (cutoff_pmlh env st ip directions nlayers) sol"

subsection \<open>The transfer of sources\<close>

text \<open>Line 357, \<^verbatim>\<open>*f_transf[ip1][l] += res1\<close>: one buffer of the object changes.\<close>

definition accumulate :: "('v, 'r, 'bf, 'ws) mfem \<Rightarrow> int \<Rightarrow> int \<Rightarrow> 'v \<Rightarrow> ('v, 'r, 'bf, 'ws) DST \<Rightarrow> ('v, 'r, 'bf, 'ws) DST" where
  "accumulate env ip1 l res1 st =
     st\<lparr>f_transf := (f_transf st)(ip1 := (f_transf st ip1)(l := vadd env (f_transf st ip1 l) res1))\<rparr>"

text \<open>
  The scan of \<^verbatim>\<open>DST::TransferSources\<close> for the sweep that receives a transfer source
  (lines 330 to 359): \<open>l\<close> runs from \<open>sweep\<close> to \<open>nsweeps - 1\<close>; \<^verbatim>\<open>continue\<close> is the recursive
  call, \<^verbatim>\<open>break\<close> the return. In the test of rule 2 the source reads \<open>il\<close> and \<open>jl\<close> from
  row \<open>l\<close> of the table, the row \<open>is\<close> and \<open>js\<close> come from.
\<close>

function deliver :: "('v, 'r, 'bf, 'ws) mfem \<Rightarrow> int \<Rightarrow> int \<Rightarrow> int \<Rightarrow> 'v \<Rightarrow> int \<Rightarrow> ('v, 'r, 'bf, 'ws) DST \<Rightarrow> error + ('v, 'r, 'bf, 'ws) DST" where
  "deliver env i j ip1 res1 l st =
     (if l < nsweeps st then
        (let is = sweeps st l 0;
             js = sweeps st l 1;
             ddot = is * i + js * j
         in if ddot \<le> 0 then deliver env i j ip1 res1 (l + 1) st
            else if (i = 0 \<or> j = 0) \<and> (let il = sweeps st l 0; jl = sweeps st l 1 in is = - il \<and> js = - jl)
              then deliver env i j ip1 res1 (l + 1) st
            else if vsize env (f_transf st ip1 l) \<noteq> vsize env res1
              then Inl (MFEM_Abort ''Transfer Sources: inconsistent size'')
            else Inr (accumulate env ip1 l res1 st))
      else Inr st)"
  by pat_completeness auto
termination
  by (relation "measure (\<lambda>(env, i, j, ip1, res1, l, st). nat (nsweeps st - l))") auto

text \<open>
  The two rules as the specification words them, for a transfer at offset \<open>(di, dj)\<close> computed
  in sweep \<open>l\<close> and a candidate sweep \<open>l'\<close>, over a table \<open>sw\<close> of sign vectors. Rule 1: the dot
  product of the offset with the sign vector of \<open>l'\<close> is strictly positive. Rule 2 forbids, for
  a purely horizontal or vertical offset, a sweep whose sign vector is the exact negation of
  that of sweep \<open>l\<close>. \<open>spec_destination\<close> is the first sweep from \<open>l\<close> on that satisfies both
  rules, \<open>first_aligned\<close> the first one that satisfies rule 1.
\<close>

definition aligned :: "(int \<Rightarrow> int \<Rightarrow> int) \<Rightarrow> int \<Rightarrow> int \<Rightarrow> int \<Rightarrow> bool" where
  "aligned sw l' di dj = (0 < sw l' 0 * di + sw l' 1 * dj)"

definition reversal :: "(int \<Rightarrow> int \<Rightarrow> int) \<Rightarrow> int \<Rightarrow> int \<Rightarrow> int \<Rightarrow> int \<Rightarrow> bool" where
  "reversal sw l l' di dj = ((di = 0 \<or> dj = 0) \<and> sw l' 0 = - sw l 0 \<and> sw l' 1 = - sw l 1)"

definition first_aligned :: "(int \<Rightarrow> int \<Rightarrow> int) \<Rightarrow> int \<Rightarrow> int \<Rightarrow> int \<Rightarrow> int \<Rightarrow> int option" where
  "first_aligned sw ns l di dj = List.find (\<lambda>l'. aligned sw l' di dj) [l..ns - 1]"

definition spec_destination :: "(int \<Rightarrow> int \<Rightarrow> int) \<Rightarrow> int \<Rightarrow> int \<Rightarrow> int \<Rightarrow> int \<Rightarrow> int option" where
  "spec_destination sw ns l di dj =
     List.find (\<lambda>l'. aligned sw l' di dj \<and> \<not> reversal sw l l' di dj) [l..ns - 1]"

text \<open>
  Lines 278 to 304: the transfer source of patch \<open>ip0\<close> for its neighbour \<open>ip1\<close> at offset
  \<open>(i, j)\<close>. The local solution is cut off towards the neighbour, the matrix of \<open>ip0\<close> is
  applied and the sign changed; the result is written into a global vector of zeros at the
  entries of \<open>ip0\<close> and read back at the entries of \<open>ip1\<close>.
\<close>

definition transfer_residual :: "('v, 'r, 'bf, 'ws) mfem \<Rightarrow> ('v, 'r, 'bf, 'ws) DST \<Rightarrow> int \<Rightarrow> int \<Rightarrow> 'v \<Rightarrow> int \<Rightarrow> int \<Rightarrow> 'v" where
  "transfer_residual env st ip0 ip1 sol0 i j =
     (let directions = [i, j];
          cfsol0 = GetCutOffSolution env st sol0 ip0 directions (nrlayers st) True;
          res0 = vneg env (PmlMat st ip0 cfsol0);
          gdofs = 2 * global_tvsize env (bf st);
          znew = fill0 env (vnew env gdofs);
          znew = set_sub env znew (Dof2GlobalDof (ovlp_prob st) ip0) res0;
          res1 = get_sub env znew (Dof2GlobalDof (ovlp_prob st) ip1)
      in res1)"

text \<open>
  The body of the loop over \<open>j\<close> (lines 269 to 359): the transfer from patch \<open>ip0\<close>, in row
  \<open>j0\<close>, to its neighbour at offset \<open>(i, j)\<close>, in column \<open>i1 = i0 + i\<close>.
\<close>

definition transfer_to :: "('v, 'r, 'bf, 'ws) mfem \<Rightarrow> int \<Rightarrow> int \<Rightarrow> 'v \<Rightarrow> int \<Rightarrow> int \<Rightarrow> int \<Rightarrow> int \<Rightarrow> ('v, 'r, 'bf, 'ws) DST \<Rightarrow> error + ('v, 'r, 'bf, 'ws) DST" where
  "transfer_to env sweep ip0 sol0 i1 j0 i j st =
     (if i = 0 \<and> j = 0 then Inr st
      else
        let j1 = j0 + j
        in if j1 < 0 \<or> j1 \<ge> nxyz st ! 1 then Inr st
           else
             (case GetPatchId st [i1, j1] of
                Inl e \<Rightarrow> Inl e
              | Inr ip1 \<Rightarrow>
                  deliver env i j ip1 (transfer_residual env st ip0 ip1 sol0 i j) sweep st))"

text \<open>\<^verbatim>\<open>DST::TransferSources\<close>: the loops over the offsets \<open>i\<close> and \<open>j\<close> in \<open>-1, 0, 1\<close>.\<close>

definition TransferSources :: "('v, 'r, 'bf, 'ws) mfem \<Rightarrow> int \<Rightarrow> int \<Rightarrow> 'v \<Rightarrow> ('v, 'r, 'bf, 'ws) DST \<Rightarrow> error + ('v, 'r, 'bf, 'ws) DST" where
  "TransferSources env sweep ip0 sol0 st =
     (let nx = nxyz st ! 0
      in case Getijk st ip0 of
           Inl e \<Rightarrow> Inl e
         | Inr (i0, j0, k0) \<Rightarrow>
             foldE (\<lambda>i st'.
                      let i1 = i0 + i
                      in if i1 < 0 \<or> i1 \<ge> nx then Inr st'
                         else foldE (\<lambda>j. transfer_to env sweep ip0 sol0 i1 j0 i j) [- 1, 0, 1] st')
                   [- 1, 0, 1] st)"

subsection \<open>One application of the preconditioner\<close>

text \<open>
  Lines 74 to 86 of \<^verbatim>\<open>DST::Mult\<close>: the source buffers are zeroed, then the residual is
  gathered patch by patch. \<open>reset_patch\<close> and \<open>scatter_patch\<close> are the bodies of the two loops
  over the patches.
\<close>

definition reset_patch :: "('v, 'r, 'bf, 'ws) mfem \<Rightarrow> int \<Rightarrow> ('v, 'r, 'bf, 'ws) DST \<Rightarrow> ('v, 'r, 'bf, 'ws) DST" where
  "reset_patch env ip st =
     fold (\<lambda>i st. st\<lparr>f_transf := (f_transf st)(ip := (f_transf st ip)(i := fill0 env (f_transf st ip i)))\<rparr>)
       [0..nsweeps st - 1]
       (st\<lparr>f_orig := (f_orig st)(ip := fill0 env (f_orig st ip))\<rparr>)"

definition reset_sources :: "('v, 'r, 'bf, 'ws) mfem \<Rightarrow> ('v, 'r, 'bf, 'ws) DST \<Rightarrow> ('v, 'r, 'bf, 'ws) DST" where
  "reset_sources env st = fold (reset_patch env) [0..nrpatch st - 1] st"

definition scatter_patch :: "('v, 'r, 'bf, 'ws) mfem \<Rightarrow> 'v \<Rightarrow> int \<Rightarrow> ('v, 'r, 'bf, 'ws) DST \<Rightarrow> ('v, 'r, 'bf, 'ws) DST" where
  "scatter_patch env r ip st =
     st\<lparr>f_orig := (f_orig st)(ip := get_sub env r (Dof2GlobalDof (ovlp_prob st) ip))\<rparr>"

definition scatter_sources :: "('v, 'r, 'bf, 'ws) mfem \<Rightarrow> 'v \<Rightarrow> ('v, 'r, 'bf, 'ws) DST \<Rightarrow> ('v, 'r, 'bf, 'ws) DST" where
  "scatter_sources env r st = fold (scatter_patch env r) [0..nrpatch st - 1] st"

text \<open>Lines 133 to 137: the local residual of patch \<open>ip\<close> in sweep \<open>l\<close>.\<close>

definition local_residual :: "('v, 'r, 'bf, 'ws) mfem \<Rightarrow> ('v, 'r, 'bf, 'ws) DST \<Rightarrow> int \<Rightarrow> int \<Rightarrow> 'v" where
  "local_residual env st l ip =
     (let ndofs = int (length (Dof2GlobalDof (ovlp_prob st) ip));
          res_local = fill0 env (vnew env ndofs);
          res_local = (if l = 0 then vadd env res_local (f_orig st ip) else res_local);
          res_local = vadd env res_local (f_transf st ip l)
      in res_local)"

text \<open>
  Lines 144 to 159: the local solution is cut off towards the neighbours ahead and then
  towards the neighbours behind, written into the zeroed work vector \<open>znew\<close> at the entries of
  the patch and added to the output \<open>z\<close>. The result is the pair of \<open>z\<close> and \<open>znew\<close>.
\<close>

definition add_correction :: "('v, 'r, 'bf, 'ws) mfem \<Rightarrow> ('v, 'r, 'bf, 'ws) DST \<Rightarrow> int \<Rightarrow> int \<Rightarrow> int \<Rightarrow> 'v \<Rightarrow> 'v \<Rightarrow> 'v \<Rightarrow> 'v \<times> 'v" where
  "add_correction env st i j ip sol_local z znew =
     (let nx = nxyz st ! 0;
          ny = nxyz st ! 1;
          directions = [0, 0];
          directions = (if i + 1 < nx then directions[0 := 1] else directions);
          directions = (if j + 1 < ny then directions[1 := 1] else directions);
          cfsol_local = GetCutOffSolution env st sol_local ip directions (nrlayers st) True;
          sol_local = cfsol_local;
          directions = [0, 0];
          directions = (if i > 0 then directions[0 := - 1] else directions);
          directions = (if j > 0 then directions[1 := - 1] else directions);
          cfsol_local = GetCutOffSolution env st sol_local ip directions (nrlayers st) True;
          znew = fill0 env znew;
          znew = set_sub env znew (Dof2GlobalDof (ovlp_prob st) ip) cfsol_local;
          z = vadd env z znew
      in (z, znew))"

text \<open>
  Lines 140 to 159: the local solve, the transfer to the neighbours and the correction. The
  state of the loops is the object, the output \<open>z\<close> and the work vector \<open>znew\<close>.
\<close>

fun solve_patch :: "('v, 'r, 'bf, 'ws) mfem \<Rightarrow> int \<Rightarrow> int \<Rightarrow> int \<Rightarrow> int \<Rightarrow> 'v \<Rightarrow> ('v, 'r, 'bf, 'ws) DST \<times> 'v \<times> 'v \<Rightarrow> error + (('v, 'r, 'bf, 'ws) DST \<times> 'v \<times> 'v)" where
  "solve_patch env l i j ip res_local (st, z, znew) =
     (let sol_local = PmlMatInv st ip res_local
      in case TransferSources env l ip sol_local st of
           Inl e \<Rightarrow> Inl e
         | Inr st' \<Rightarrow> Inr (st', add_correction env st' i j ip sol_local z znew))"

text \<open>Lines 123 to 159: the visit of the patch at \<open>(i, j)\<close>, with the skip of line 139.\<close>

fun visit_patch :: "('v, 'r, 'bf, 'ws) mfem \<Rightarrow> int \<Rightarrow> int \<times> int \<Rightarrow> ('v, 'r, 'bf, 'ws) DST \<times> 'v \<times> 'v \<Rightarrow> error + (('v, 'r, 'bf, 'ws) DST \<times> 'v \<times> 'v)" where
  "visit_patch env l (i, j) (st, z, znew) =
     (case GetPatchId st [i, j] of
        Inl e \<Rightarrow> Inl e
      | Inr ip \<Rightarrow>
         (let res_local = local_residual env st l ip
          in if norml2_below env res_local then Inr (st, z, znew)
             else solve_patch env l i j ip res_local (st, z, znew)))"

text \<open>Lines 113 to 119: the row \<open>j\<close> of the patch of column \<open>i\<close> on front \<open>s\<close> of sweep \<open>l\<close>.\<close>

definition front_j :: "int \<Rightarrow> int \<Rightarrow> int \<Rightarrow> int \<Rightarrow> int \<Rightarrow> int" where
  "front_j l nx ny s i =
     (if l = 0 then s - i
      else if l = 1 then s - nx + i + 1
      else if l = 2 then nx + i - s - 1
      else nx + ny - i - s - 2)"

text \<open>The body of the loop over \<open>i\<close> (lines 110 to 160), with the \<^verbatim>\<open>continue\<close> of line 120.\<close>

definition visit_i :: "('v, 'r, 'bf, 'ws) mfem \<Rightarrow> int \<Rightarrow> int \<Rightarrow> int \<Rightarrow> int \<Rightarrow> int \<Rightarrow> ('v, 'r, 'bf, 'ws) DST \<times> 'v \<times> 'v \<Rightarrow> error + (('v, 'r, 'bf, 'ws) DST \<times> 'v \<times> 'v)" where
  "visit_i env nx ny l s i c =
     (let j = front_j l nx ny s i
      in if j < 0 \<or> j \<ge> ny then Inr c else visit_patch env l (i, j) c)"

text \<open>The loops over \<open>s\<close> and \<open>i\<close> for one sweep \<open>l\<close> (lines 105 to 161).\<close>

definition sweep_pass :: "('v, 'r, 'bf, 'ws) mfem \<Rightarrow> int \<Rightarrow> int \<Rightarrow> int \<Rightarrow> ('v, 'r, 'bf, 'ws) DST \<times> 'v \<times> 'v \<Rightarrow> error + (('v, 'r, 'bf, 'ws) DST \<times> 'v \<times> 'v)" where
  "sweep_pass env nx ny l c =
     (let nsteps = nx + ny - 1
      in foldE (\<lambda>s. foldE (visit_i env nx ny l s) [0..nx - 1]) [0..nsteps - 1] c)"

text \<open>
  \<^verbatim>\<open>DST::Mult\<close>. The loop over \<open>l\<close> is \<^verbatim>\<open>for (int l=0; l<1; l++)\<close>. The result is the object
  with its buffers as the call leaves them, and the output vector \<open>z\<close>.
\<close>

definition Mult :: "('v, 'r, 'bf, 'ws) mfem \<Rightarrow> 'v \<Rightarrow> 'v \<Rightarrow> ('v, 'r, 'bf, 'ws) DST \<Rightarrow> error + (('v, 'r, 'bf, 'ws) DST \<times> 'v)" where
  "Mult env r z st =
     (let st = reset_sources env st;
          st = scatter_sources env r st;
          z = fill0 env z;
          znew = z;
          nx = nxyz st ! 0;
          ny = nxyz st ! 1
      in case foldE (sweep_pass env nx ny) [0..1 - 1] (st, z, znew) of
           Inl e \<Rightarrow> Inl e
         | Inr (st', z', znew') \<Rightarrow> Inr (st', z'))"

text \<open>
  The order of the visits as a list: the patches of front \<open>s\<close> of sweep \<open>l\<close> in the order of
  the loop over \<open>i\<close>, and the fronts one after the other in the order of the loop over \<open>s\<close>.
\<close>

definition front :: "int \<Rightarrow> int \<Rightarrow> int \<Rightarrow> int \<Rightarrow> (int \<times> int) list" where
  "front l nx ny s =
     map (\<lambda>i. (i, front_j l nx ny s i))
       (filter (\<lambda>i. \<not> (front_j l nx ny s i < 0 \<or> front_j l nx ny s i \<ge> ny)) [0..nx - 1])"

definition sweep_order :: "int \<Rightarrow> int \<Rightarrow> int \<Rightarrow> (int \<times> int) list" where
  "sweep_order l nx ny = concat (map (front l nx ny) [0..nx + ny - 1 - 1])"

subsection \<open>The constructor\<close>

text \<open>Lines 49 to 52: the four rows of the table of sweep directions, written over the fresh array.\<close>

definition set_sweeps :: "(int \<Rightarrow> int \<Rightarrow> int) \<Rightarrow> int \<Rightarrow> int \<Rightarrow> int" where
  "set_sweeps sw =
     (let sw = sw(0 := (sw 0)(0 := 1)); sw = sw(0 := (sw 0)(1 := 1));
          sw = sw(1 := (sw 1)(0 := - 1)); sw = sw(1 := (sw 1)(1 := 1));
          sw = sw(2 := (sw 2)(0 := 1)); sw = sw(2 := (sw 2)(1 := - 1));
          sw = sw(3 := (sw 3)(0 := - 1)); sw = sw(3 := (sw 3)(1 := - 1))
      in sw)"

text \<open>
  \<^verbatim>\<open>DST::DST\<close>. \<open>sw0\<close> is the content of the table of sweeps as \<^verbatim>\<open>SetSize\<close> leaves it. The
  matrix of patch \<open>ip\<close> is what \<^verbatim>\<open>GetPmlSystemMatrix(ip)\<close> assembles; its factorisation is
  the KLU solver set on it.
\<close>

definition DST_ctor :: "('v, 'r, 'bf, 'ws) mfem \<Rightarrow> 'bf \<Rightarrow> 'r list list \<Rightarrow> 'r \<Rightarrow> 'ws \<Rightarrow> int \<Rightarrow> (int \<Rightarrow> int \<Rightarrow> int) \<Rightarrow> ('v, 'r, 'bf, 'ws) DST" where
  "DST_ctor env bf_a Pmllength_a omega_a ws_a nrlayers_a sw0 =
     (let dim_v = mesh_dimension env bf_a;
          partition_kind = 2;
          nx = 2;
          ny = 2;
          nz = 1;
          povlp_v = new_MeshPartition env bf_a partition_kind nx ny nz nrlayers_a;
          ovlp_prob_v = new_DofMap env bf_a povlp_v;
          PmlMat_v = pml_system_matrix env povlp_v ovlp_prob_v omega_a ws_a nrlayers_a;
          n = (\<lambda>ip. 2 * fespaces_tvsize ovlp_prob_v ip)
      in \<lparr>bf = bf_a, Pmllength = Pmllength_a, omega = omega_a, ws = ws_a, nrlayers = nrlayers_a,
          dim = dim_v, povlp = povlp_v,
          nxyz = [p_nxyz povlp_v ! 0, p_nxyz povlp_v ! 1, p_nxyz povlp_v ! 2],
          nrpatch = p_nrpatch povlp_v,
          subdomains = p_subdomains povlp_v,
          ovlp_prob = ovlp_prob_v,
          PmlMat = PmlMat_v,
          PmlMatInv = (\<lambda>ip. klu_solver env (PmlMat_v ip)),
          nsweeps = 2 ^ nat dim_v,
          sweeps = set_sweeps sw0,
          f_orig = (\<lambda>ip. fill0 env (vnew env (n ip))),
          f_transf = (\<lambda>ip i. vnew env (n ip))\<rparr>)"

subsection \<open>What the theorems ask of the library and of the object\<close>

text \<open>
  The vectors are uninterpreted, so the facts of the vector library a theorem rests on are
  stated. \<open>vector_laws\<close>: zeroing a zeroed vector changes nothing, zeroing keeps the size, and
  adding a vector of the same size keeps the size and the zeroed vector. \<open>zero_laws\<close>: a
  zeroed fresh vector of \<open>n\<close> entries has size \<open>n\<close>, the sum of two all-zero vectors of the
  same size is the first of them, and the norm of an all-zero vector is below the threshold.
  A vector is all zero when zeroing it leaves it as it is.
\<close>

definition vector_laws :: "('v, 'r, 'bf, 'ws) mfem \<Rightarrow> bool" where
  "vector_laws env =
     ((\<forall>v. fill0 env (fill0 env v) = fill0 env v)
      \<and> (\<forall>v. vsize env (fill0 env v) = vsize env v)
      \<and> (\<forall>a b. vsize env a = vsize env b \<longrightarrow>
             vsize env (vadd env a b) = vsize env a \<and> fill0 env (vadd env a b) = fill0 env a))"

definition zero_laws :: "('v, 'r, 'bf, 'ws) mfem \<Rightarrow> bool" where
  "zero_laws env =
     ((\<forall>n. 0 \<le> n \<longrightarrow> vsize env (fill0 env (vnew env n)) = n)
      \<and> (\<forall>a b. vsize env a = vsize env b \<and> fill0 env a = a \<and> fill0 env b = b \<longrightarrow> vadd env a b = a)
      \<and> (\<forall>v. fill0 env v = v \<longrightarrow> norml2_below env v))"

text \<open>
  The residual \<open>r\<close> is all zero on the object: what is gathered from it for a patch is an
  all-zero vector with one entry for each index of the patch.
\<close>

definition zero_on :: "('v, 'r, 'bf, 'ws) mfem \<Rightarrow> ('v, 'r, 'bf, 'ws) DST \<Rightarrow> 'v \<Rightarrow> bool" where
  "zero_on env st r =
     (\<forall>ip. 0 \<le> ip \<and> ip < nrpatch st \<longrightarrow>
        fill0 env (get_sub env r (Dof2GlobalDof (ovlp_prob st) ip)) = get_sub env r (Dof2GlobalDof (ovlp_prob st) ip)
        \<and> vsize env (get_sub env r (Dof2GlobalDof (ovlp_prob st) ip)) = int (length (Dof2GlobalDof (ovlp_prob st) ip)))"

text \<open>
  The object is as the constructor and its partitioner are meant to leave it: the table of
  patch numbers maps the grid into the patches, and the transfer buffers of a patch for
  sweep 0 have one entry for each index of the patch.
\<close>

definition patch_ids_ok :: "('v, 'r, 'bf, 'ws) DST \<Rightarrow> bool" where
  "patch_ids_ok st =
     (\<forall>i j. 0 \<le> i \<and> i < nxyz st ! 0 \<and> 0 \<le> j \<and> j < nxyz st ! 1 \<longrightarrow>
        0 \<le> subdomains st i j 0 \<and> subdomains st i j 0 < nrpatch st)"

definition buffers_sized :: "('v, 'r, 'bf, 'ws) mfem \<Rightarrow> ('v, 'r, 'bf, 'ws) DST \<Rightarrow> bool" where
  "buffers_sized env st =
     (\<forall>ip. 0 \<le> ip \<and> ip < nrpatch st \<longrightarrow>
        vsize env (f_transf st ip 0) = int (length (Dof2GlobalDof (ovlp_prob st) ip)))"

text \<open>
  Two relations between states of the object. \<open>keeps_shape env s0 st\<close>: \<open>st\<close> is \<open>s0\<close> but for
  the contents of transfer buffers of patches and sweeps in range; zeroed, the buffers of
  the two are the same. \<open>agree_on_sweep_0 env s t\<close>: \<open>t\<close> is \<open>s\<close> but for the contents of
  transfer buffers of sweeps other than 0, the sizes being the same.
\<close>

definition keeps_shape :: "('v, 'r, 'bf, 'ws) mfem \<Rightarrow> ('v, 'r, 'bf, 'ws) DST \<Rightarrow> ('v, 'r, 'bf, 'ws) DST \<Rightarrow> bool" where
  "keeps_shape env s0 st =
     (s0\<lparr>f_transf := f_transf st\<rparr> = st
      \<and> (\<forall>ip l. fill0 env (f_transf st ip l) = fill0 env (f_transf s0 ip l))
      \<and> (\<forall>ip l. \<not> (0 \<le> ip \<and> ip < nrpatch s0 \<and> 0 \<le> l \<and> l < nsweeps s0) \<longrightarrow>
             f_transf st ip l = f_transf s0 ip l))"

definition agree_on_sweep_0 :: "('v, 'r, 'bf, 'ws) mfem \<Rightarrow> ('v, 'r, 'bf, 'ws) DST \<Rightarrow> ('v, 'r, 'bf, 'ws) DST \<Rightarrow> bool" where
  "agree_on_sweep_0 env s t =
     (s\<lparr>f_transf := f_transf t\<rparr> = t
      \<and> (\<forall>ip. f_transf t ip 0 = f_transf s ip 0)
      \<and> (\<forall>ip l. vsize env (f_transf t ip l) = vsize env (f_transf s ip l)))"

subsection \<open>A small instance\<close>

text \<open>
  An instance of the library to run the definitions on. Vectors are lists of integers and
  the global vector has six entries. The partitioner returns the grid it is asked for, with
  patch \<open>(i, j)\<close> numbered \<open>i + nx * j\<close>; patch \<open>ip\<close> has two entries, the global entries
  \<open>ip + 1\<close> and \<open>ip\<close>, so that neighbouring patch numbers share an entry. The matrix of a
  patch maps \<open>[a, b]\<close> to \<open>[a, a + b]\<close> and the solver maps \<open>[a, b]\<close> to \<open>[a, b - a]\<close>. The
  cut-off sets the first entry to zero when a band on a low side is set in \<open>pmlh\<close>, and the
  second when a band on a high side is.
\<close>

definition toy_partition :: "unit \<Rightarrow> int \<Rightarrow> int \<Rightarrow> int \<Rightarrow> int \<Rightarrow> int \<Rightarrow> int MeshPartition" where
  "toy_partition u kind nx ny nz nl =
     \<lparr>p_nxyz = [nx, ny, nz], p_nrpatch = nx * ny * nz,
      p_subdomains = (\<lambda>i j k. i + nx * j + nx * ny * k), patch_h = (\<lambda>ip. 1)\<rparr>"

definition toy_dofmap :: "unit \<Rightarrow> int MeshPartition \<Rightarrow> DofMap" where
  "toy_dofmap u p = \<lparr>Dof2GlobalDof = (\<lambda>ip. [ip mod 4 + 1, ip mod 4]), fespaces_tvsize = (\<lambda>ip. 1)\<rparr>"

definition toy_matrix :: "int list \<Rightarrow> int list" where
  "toy_matrix v = (case v of [a, b] \<Rightarrow> [a, a + b] | _ \<Rightarrow> v)"

definition toy_solver :: "int list \<Rightarrow> int list" where
  "toy_solver v = (case v of [a, b] \<Rightarrow> [a, b - a] | _ \<Rightarrow> v)"

definition toy_cutoff :: "int list list \<Rightarrow> int list \<Rightarrow> int list" where
  "toy_cutoff pmlh sol =
     (case sol of
        [a, b] \<Rightarrow>
          [if pmlh ! 0 ! 0 = 0 \<and> pmlh ! 1 ! 0 = 0 then a else 0,
           if pmlh ! 0 ! 1 = 0 \<and> pmlh ! 1 ! 1 = 0 then b else 0]
      | _ \<Rightarrow> sol)"

definition toy_mfem :: "(int list, int, unit, unit) mfem" where
  "toy_mfem =
     \<lparr>vnew = (\<lambda>n. replicate (nat n) 7),
      fill0 = map (\<lambda>x. 0),
      vsize = (\<lambda>v. int (length v)),
      vadd = (\<lambda>a b. map2 (+) a b),
      vneg = map uminus,
      norml2_below = list_all (\<lambda>x. x = 0),
      get_sub = (\<lambda>r dofs. map (\<lambda>d. r ! nat d) dofs),
      set_sub = (\<lambda>z dofs x. fold (\<lambda>(d, y) z. z[nat d := y]) (zip dofs x) z),
      layer_len = (\<lambda>h n. h * n),
      rzero = 0,
      project_cutoff = (\<lambda>u p m ip local. toy_cutoff),
      global_tvsize = (\<lambda>u. 3),
      mesh_dimension = (\<lambda>u. 2),
      new_MeshPartition = toy_partition,
      new_DofMap = toy_dofmap,
      pml_system_matrix = (\<lambda>p m om w nl ip. toy_matrix),
      klu_solver = (\<lambda>A. toy_solver)\<rparr>"

definition toy_dst :: "(int list, int, unit, unit) DST" where
  "toy_dst = DST_ctor toy_mfem () [] 1 () 1 (\<lambda>l c. 0)"

text \<open>
  The same object with buffers of one entry, one less than the entries of a patch.
\<close>

definition toy_short :: "(int list, int, unit, unit) DST" where
  "toy_short = toy_dst\<lparr>f_transf := \<lambda>ip l. [7]\<rparr>"

text \<open>
  A residual that only the last patch of sweep 0 sees, the object as the reset and the gather
  of this residual leave it, and as the three transfers of the last patch then leave it.
\<close>

definition toy_r :: "int list" where
  "toy_r = [0, 0, 0, 0, 5, 0]"

definition toy_prepared :: "(int list, int, unit, unit) DST" where
  "toy_prepared = scatter_sources toy_mfem toy_r (reset_sources toy_mfem toy_dst)"

definition toy_after :: "(int list, int, unit, unit) DST" where
  "toy_after =
     accumulate toy_mfem 1 2 [0, 0] (accumulate toy_mfem 2 1 [5, 0] (accumulate toy_mfem 0 3 [0, 0] toy_prepared))"

section \<open>Properties\<close>

subsection \<open>The small instance, field by field\<close>

declare deliver.simps [simp del]

lemma toy_ops:
  "vnew toy_mfem n = replicate (nat n) 7"
  "fill0 toy_mfem v = map (\<lambda>x. 0) v"
  "vsize toy_mfem v = int (length v)"
  "vadd toy_mfem a b = map2 (+) a b"
  "vneg toy_mfem v = map uminus v"
  "norml2_below toy_mfem v = list_all (\<lambda>x. x = 0) v"
  "get_sub toy_mfem r dofs = map (\<lambda>d. r ! nat d) dofs"
  "set_sub toy_mfem z dofs x = fold (\<lambda>(d, y) z. z[nat d := y]) (zip dofs x) z"
  "project_cutoff toy_mfem u p m ip local pmlh sol = toy_cutoff pmlh sol"
  "global_tvsize toy_mfem u = 3"
  "rzero toy_mfem = 0"
  "layer_len toy_mfem h n = h * n"
  by (simp_all add: toy_mfem_def)

lemma toy_fields:
  "dim toy_dst = 2"
  "nxyz toy_dst = [2, 2, 1]"
  "nrpatch toy_dst = 4"
  "nsweeps toy_dst = 4"
  "nrlayers toy_dst = 1"
  "patch_h (povlp toy_dst) ip = 1"
  "subdomains toy_dst i j k = i + 2 * j + 4 * k"
  "Dof2GlobalDof (ovlp_prob toy_dst) ip = [ip mod 4 + 1, ip mod 4]"
  "PmlMat toy_dst ip = toy_matrix"
  "PmlMatInv toy_dst ip = toy_solver"
  "f_orig toy_dst ip = [0, 0]"
  "f_transf toy_dst ip l = [7, 7]"
  by (simp_all add: toy_dst_def DST_ctor_def Let_def toy_mfem_def toy_partition_def toy_dofmap_def numeral_2_eq_2)

lemma toy_sweeps:
  "sweeps toy_dst 0 0 = 1" "sweeps toy_dst 0 1 = 1"
  "sweeps toy_dst 1 0 = - 1" "sweeps toy_dst 1 1 = 1"
  "sweeps toy_dst 2 0 = 1" "sweeps toy_dst 2 1 = - 1"
  "sweeps toy_dst 3 0 = - 1" "sweeps toy_dst 3 1 = - 1"
  by (simp_all add: toy_dst_def DST_ctor_def Let_def set_sweeps_def)

lemma toy_short_fields:
  "sweeps toy_short = sweeps toy_dst"
  "nsweeps toy_short = 4"
  "nxyz toy_short = [2, 2, 1]"
  "f_transf toy_short ip l = [7]"
  by (simp_all add: toy_short_def toy_fields)

subsection \<open>The scan for the receiving sweep\<close>

text \<open>
  The test of rule 2 in the scan compares row \<open>l\<close> of the table with itself; it holds only
  for a row of zeros, which rule 1 has already passed over. So the scan stops at the first
  sweep that satisfies rule 1, whatever the table holds.
\<close>

lemma deliver_first_aligned_eq:
  "deliver env i j ip1 res1 l st =
     (case first_aligned (sweeps st) (nsweeps st) l i j of
        None \<Rightarrow> Inr st
      | Some l' \<Rightarrow>
          if vsize env (f_transf st ip1 l') \<noteq> vsize env res1
          then Inl (MFEM_Abort ''Transfer Sources: inconsistent size'')
          else Inr (accumulate env ip1 l' res1 st))"
proof (induction env i j ip1 res1 l st rule: deliver.induct)
  case (1 env i j ip1 res1 l st)
  show ?case
  proof (cases "l < nsweeps st")
    case False
    then show ?thesis
      by (simp add: deliver.simps [of env i j ip1 res1 l st] first_aligned_def)
  next
    case True
    then have up: "[l..nsweeps st - 1] = l # [l + 1..nsweeps st - 1]"
      by (simp add: upto_rec1)
    show ?thesis
    proof (cases "sweeps st l 0 * i + sweeps st l 1 * j \<le> 0")
      case le: True
      with True "1.IH"(1) [OF True refl refl refl le] show ?thesis
        by (simp add: deliver.simps [of env i j ip1 res1 l st] first_aligned_def up aligned_def)
    next
      case gt: False
      then have "\<not> (sweeps st l 0 = - sweeps st l 0 \<and> sweeps st l 1 = - sweeps st l 1)"
        by auto
      with True gt show ?thesis
        by (auto simp add: deliver.simps [of env i j ip1 res1 l st] first_aligned_def up aligned_def Let_def)
    qed
  qed
qed


lemma first_aligned_range:
  "first_aligned sw ns l di dj = Some l' \<Longrightarrow> l \<le> l' \<and> l' < ns \<and> aligned sw l' di dj"
  by (auto simp add: first_aligned_def find_Some_iff)



lemma toy_first_aligned:
  "first_aligned (sweeps toy_dst) 4 1 1 0 = Some 2"
  "first_aligned (sweeps toy_dst) 4 3 1 1 = None"
  "first_aligned (sweeps toy_dst) 4 0 (- 1) 0 = Some 1"
  by (simp_all add: first_aligned_def aligned_def toy_fields toy_sweeps upto_rec1)

lemma toy_spec_destination:
  "spec_destination (sweeps toy_dst) 4 1 1 0 = None"
  "spec_destination (sweeps toy_dst) 4 3 1 1 = None"
  "spec_destination (sweeps toy_dst) 4 0 (- 1) 0 = Some 1"
  by (simp_all add: spec_destination_def aligned_def reversal_def toy_fields toy_sweeps upto_rec1)

text \<open>
  With the table of the constructor and offsets in \<open>-1, 0, 1\<close>, the scan of the code and the
  two rules of the specification name the same sweep when the transfer is computed in sweep
  0, 2 or 3. They part in sweep 1.
\<close>

lemma scan_agrees_outside_sweep_1:
  assumes "l \<in> {0, 2, 3}" "i \<in> {- 1, 0, 1}" "j \<in> {- 1, 0, 1}"
  shows "first_aligned (set_sweeps sw0) 4 l i j = spec_destination (set_sweeps sw0) 4 l i j"
  using assms
  by (auto simp add: first_aligned_def spec_destination_def aligned_def reversal_def set_sweeps_def upto_rec1)

lemma scan_differs_in_sweep_1:
  "first_aligned (set_sweeps sw0) 4 1 1 0 = Some 2" "spec_destination (set_sweeps sw0) 4 1 1 0 = None"
  "first_aligned (set_sweeps sw0) 4 1 0 (- 1) = Some 2" "spec_destination (set_sweeps sw0) 4 1 0 (- 1) = Some 3"
  by (simp_all add: first_aligned_def spec_destination_def aligned_def reversal_def set_sweeps_def upto_rec1)

lemma toy_TransferSources_sweep_1:
  "map_sum id (\<lambda>st. f_transf st 1 2) (TransferSources toy_mfem 1 0 [5, 6] toy_dst) = Inr [7, 2]"
  by code_simp

text \<open>
  C1. The specification asks that a purely horizontal or vertical transfer computed in sweep
  \<open>l\<close> is never delivered to the sweep whose sign vector is the exact negation of that of
  sweep \<open>l\<close>. The code does deliver there: in sweep 1, with sign vector \<open>(-1, 1)\<close>, the
  transfer at offset \<open>(1, 0)\<close> goes to sweep 2, with sign vector \<open>(1, -1)\<close>, where the
  specification has no sweep to deliver to. In the run of \<open>TransferSources\<close> for patch 0 in
  sweep 1 the buffer of patch 1 for sweep 2 goes from \<open>[7, 7]\<close> to \<open>[7, 2]\<close>.
\<close>

theorem TransferSources_reversed_sweep:
  "deliver toy_mfem 1 0 1 [0, - 5] 1 toy_dst = Inr (accumulate toy_mfem 1 2 [0, - 5] toy_dst)
   \<and> sweeps toy_dst 2 0 = - sweeps toy_dst 1 0 \<and> sweeps toy_dst 2 1 = - sweeps toy_dst 1 1
   \<and> spec_destination (sweeps toy_dst) (nsweeps toy_dst) 1 1 0 = None
   \<and> f_transf toy_dst 1 2 = [7, 7]
   \<and> map_sum id (\<lambda>st. f_transf st 1 2) (TransferSources toy_mfem 1 0 [5, 6] toy_dst) = Inr [7, 2]"
  by (simp add: deliver_first_aligned_eq toy_first_aligned toy_spec_destination toy_fields
      toy_sweeps toy_ops toy_TransferSources_sweep_1)




subsection \<open>The order of the visits\<close>

lemma foldE_append:
  "foldE f (xs @ ys) s = (case foldE f xs s of Inl e \<Rightarrow> Inl e | Inr s' \<Rightarrow> foldE f ys s')"
  by (induction xs arbitrary: s) (auto split: sum.splits)

lemma foldE_concat:
  "foldE (\<lambda>x. foldE g (h x)) xs s = foldE g (concat (map h xs)) s"
  by (induction xs arbitrary: s) (auto simp add: foldE_append split: sum.splits)

lemma foldE_filter_map:
  "foldE (\<lambda>i c. if P i then Inr c else g (f i) c) xs s = foldE g (map f (filter (\<lambda>i. \<not> P i) xs)) s"
  by (induction xs arbitrary: s) (auto split: sum.splits)

lemma sweep_pass_order:
  "sweep_pass env nx ny l c = foldE (visit_patch env l) (sweep_order l nx ny) c"
proof -
  have "foldE (visit_i env nx ny l s) [0..nx - 1] = foldE (visit_patch env l) (front l nx ny s)" for s
  proof
    fix c
    have "visit_i env nx ny l s =
        (\<lambda>i c. if front_j l nx ny s i < 0 \<or> front_j l nx ny s i \<ge> ny then Inr c
                else visit_patch env l (i, front_j l nx ny s i) c)"
      by (intro ext) (simp add: visit_i_def Let_def)
    then show "foldE (visit_i env nx ny l s) [0..nx - 1] c = foldE (visit_patch env l) (front l nx ny s) c"
      by (simp add: foldE_filter_map [where g = "visit_patch env l"] front_def)
  qed
  then show ?thesis
    by (simp add: sweep_pass_def sweep_order_def foldE_concat)
qed

lemma set_front_0:
  "set (front 0 nx ny s) = {(i, j). 0 \<le> i \<and> i < nx \<and> 0 \<le> j \<and> j < ny \<and> i + j = s}"
  by (auto simp add: front_def front_j_def)

lemma distinct_front: "distinct (front l nx ny s)"
  by (simp add: front_def distinct_map inj_on_def)

lemma distinct_concat_map:
  "distinct xs \<Longrightarrow> (\<And>x. x \<in> set xs \<Longrightarrow> distinct (f x)) \<Longrightarrow>
   (\<And>x y. x \<in> set xs \<Longrightarrow> y \<in> set xs \<Longrightarrow> x \<noteq> y \<Longrightarrow> set (f x) \<inter> set (f y) = {}) \<Longrightarrow>
   distinct (concat (map f xs))"
  by (induction xs) auto

lemma set_sweep_order_0:
  "set (sweep_order 0 nx ny) = {(i, j). 0 \<le> i \<and> i < nx \<and> 0 \<le> j \<and> j < ny}"
  by (auto simp add: sweep_order_def set_front_0)

lemma distinct_sweep_order_0: "distinct (sweep_order 0 nx ny)"
  unfolding sweep_order_def
  by (rule distinct_concat_map) (auto simp add: distinct_front set_front_0)

lemma concat_map_before:
  assumes "a \<in> set (f s')" "b \<in> set (f s)" "lo \<le> s'" "s' < s" "s \<le> hi"
  shows "\<exists>xs ys zs. concat (map f [lo..hi]) = xs @ a # ys @ b # zs"
proof -
  from assms obtain a1 a2 where a: "f s' = a1 @ a # a2"
    by (auto dest: split_list)
  from assms obtain b1 b2 where b: "f s = b1 @ b # b2"
    by (auto dest: split_list)
  from assms have "[lo..hi] = [lo..s' - 1] @ s' # [s' + 1..hi]"
    by (simp add: upto_split3)
  moreover from assms have "[s' + 1..hi] = [s' + 1..s - 1] @ s # [s + 1..hi]"
    by (simp add: upto_split3)
  ultimately have "concat (map f [lo..hi]) =
      (concat (map f [lo..s' - 1]) @ a1) @ a # (a2 @ concat (map f [s' + 1..s - 1]) @ b1) @ b # (b2 @ concat (map f [s + 1..hi]))"
    by (simp add: a b)
  then show ?thesis by blast
qed

lemma sweep_order_0_before:
  assumes "0 \<le> i'" "i' \<le> i" "i < nx" "0 \<le> j'" "j' \<le> j" "j < ny" "(i', j') \<noteq> (i, j)"
  shows "\<exists>xs ys zs. sweep_order 0 nx ny = xs @ (i', j') # ys @ (i, j) # zs"
proof -
  from assms have "(i', j') \<in> set (front 0 nx ny (i' + j'))" "(i, j) \<in> set (front 0 nx ny (i + j))"
    by (auto simp add: set_front_0)
  moreover from assms have "0 \<le> i' + j'" "i' + j' < i + j" "i + j \<le> nx + ny - 1 - 1"
    by auto
  ultimately show ?thesis
    unfolding sweep_order_def by (rule concat_map_before)
qed

text \<open>
  C3. In sweep 0 over a grid of \<open>nx\<close> by \<open>ny\<close> patches the loops of \<open>Mult\<close> visit the patches in
  the order of the list \<open>sweep_order 0 nx ny\<close>: front after front for \<open>s\<close> from 0 to
  \<open>nx + ny - 2\<close>, front \<open>s\<close> holding the patches \<open>(i, j)\<close> of the grid with \<open>i + j = s\<close>. Every
  patch of the grid is in the list, once. A patch \<open>(i', j')\<close> other than \<open>(i, j)\<close> with
  \<open>i' \<le> i\<close> and \<open>j' \<le> j\<close> stands before \<open>(i, j)\<close> in the list.
\<close>

theorem sweep_0_order:
  "sweep_pass env nx ny 0 c = foldE (visit_patch env 0) (sweep_order 0 nx ny) c
   \<and> sweep_order 0 nx ny = concat (map (front 0 nx ny) [0..nx + ny - 2])
   \<and> (\<forall>s. set (front 0 nx ny s) = {(i, j). 0 \<le> i \<and> i < nx \<and> 0 \<le> j \<and> j < ny \<and> i + j = s})
   \<and> distinct (sweep_order 0 nx ny)
   \<and> set (sweep_order 0 nx ny) = {(i, j). 0 \<le> i \<and> i < nx \<and> 0 \<le> j \<and> j < ny}
   \<and> (\<forall>i j i' j'. 0 \<le> i' \<and> i' \<le> i \<and> i < nx \<and> 0 \<le> j' \<and> j' \<le> j \<and> j < ny \<and> (i', j') \<noteq> (i, j) \<longrightarrow>
         (\<exists>xs ys zs. sweep_order 0 nx ny = xs @ (i', j') # ys @ (i, j) # zs))"
proof (intro conjI allI impI)
  show "sweep_pass env nx ny 0 c = foldE (visit_patch env 0) (sweep_order 0 nx ny) c"
    by (rule sweep_pass_order)
  show "sweep_order 0 nx ny = concat (map (front 0 nx ny) [0..nx + ny - 2])"
    by (simp add: sweep_order_def)
  show "set (front 0 nx ny s) = {(i, j). 0 \<le> i \<and> i < nx \<and> 0 \<le> j \<and> j < ny \<and> i + j = s}" for s
    by (rule set_front_0)
  show "distinct (sweep_order 0 nx ny)"
    by (rule distinct_sweep_order_0)
  show "set (sweep_order 0 nx ny) = {(i, j). 0 \<le> i \<and> i < nx \<and> 0 \<le> j \<and> j < ny}"
    by (rule set_sweep_order_0)
  show "\<exists>xs ys zs. sweep_order 0 nx ny = xs @ (i', j') # ys @ (i, j) # zs"
    if "0 \<le> i' \<and> i' \<le> i \<and> i < nx \<and> 0 \<le> j' \<and> j' \<le> j \<and> j < ny \<and> (i', j') \<noteq> (i, j)" for i j i' j'
    using that by (intro sweep_order_0_before) simp_all
qed

lemma sweep_order_0_2_2: "sweep_order 0 2 2 = [(0, 0), (0, 1), (1, 0), (1, 1)]"
  by code_simp

theorem sweep_0_order_witness:
  "sweep_order 0 2 2 = [(0, 0), (0, 1), (1, 0), (1, 1)]
   \<and> (0::int) \<le> 0 \<and> (0::int) \<le> 1 \<and> (1::int) < 2 \<and> ((0::int), (1::int)) \<noteq> (1, 1)
   \<and> (\<exists>xs ys zs. sweep_order 0 2 2 = xs @ (0, 1) # ys @ (1, 1) # zs)
   \<and> sweep_pass toy_mfem 2 2 0 (toy_dst, [0, 0, 0, 0], [0, 0, 0, 0])
       = foldE (visit_patch toy_mfem 0) (sweep_order 0 2 2) (toy_dst, [0, 0, 0, 0], [0, 0, 0, 0])"
proof -
  note t = sweep_0_order [of toy_mfem 2 2 "(toy_dst, [0, 0, 0, 0], [0, 0, 0, 0])"]
  from t have a: "sweep_pass toy_mfem 2 2 0 (toy_dst, [0, 0, 0, 0], [0, 0, 0, 0])
       = foldE (visit_patch toy_mfem 0) (sweep_order 0 2 2) (toy_dst, [0, 0, 0, 0], [0, 0, 0, 0])"
    by (rule conjunct1)
  from t have "\<And>i j i' j'. 0 \<le> i' \<and> i' \<le> i \<and> i < 2 \<and> 0 \<le> j' \<and> j' \<le> j \<and> j < 2 \<and> (i', j') \<noteq> (i, j) \<Longrightarrow>
      \<exists>xs ys zs. sweep_order 0 2 2 = xs @ (i', j') # ys @ (i, j) # zs"
    by blast
  from this [of 0 1 1 1] have b: "\<exists>xs ys zs. sweep_order 0 2 2 = xs @ (0, 1) # ys @ (1, 1) # zs"
    by simp
  from a b sweep_order_0_2_2 show ?thesis
    by (intro conjI) (assumption | simp)+
qed

subsection \<open>The size check of the transfer\<close>

lemma first_aligned_sweep_0:
  assumes "i \<in> {- 1, 0, 1}" "j \<in> {- 1, 0, 1}" "\<not> (i = 0 \<and> j = 0)"
  shows "first_aligned (set_sweeps sw0) 4 0 i j \<noteq> None"
  using assms
  by (auto simp add: first_aligned_def aligned_def set_sweeps_def upto_rec1)

lemma transfer_to_deliver:
  assumes "\<not> (i = 0 \<and> j = 0)" and "0 \<le> j0 + j" and "j0 + j < nxyz st ! 1"
    and "GetPatchId st [i1, j0 + j] = Inr ip1"
  shows "transfer_to env sweep ip0 sol0 i1 j0 i j st =
           deliver env i j ip1 (transfer_residual env st ip0 ip1 sol0 i j) sweep st"
  using assms by (auto simp add: transfer_to_def Let_def)

lemma cutoff_pmlh_2D:
  assumes "dim st = 2"
  shows "cutoff_pmlh env st ip [dx, dy] n =
           [[if dx = - 1 then layer_len env (patch_h (povlp st) ip) n else rzero env,
             if dx = 1 then layer_len env (patch_h (povlp st) ip) n else rzero env],
            [if dy = - 1 then layer_len env (patch_h (povlp st) ip) n else rzero env,
             if dy = 1 then layer_len env (patch_h (povlp st) ip) n else rzero env]]"
  using assms by (simp add: cutoff_pmlh_def Let_def numeral_2_eq_2)

lemma toy_sweeps_table: "sweeps toy_dst = set_sweeps (\<lambda>l c. 0)"
  by (simp add: toy_dst_def DST_ctor_def Let_def)

lemma toy_GetPatchId: "GetPatchId (toy_dst\<lparr>f_transf := ft\<rparr>) [i, j] = Inr (i + 2 * j)"
  by (simp add: GetPatchId_def toy_fields)

lemma toy_transfer_residual:
  "transfer_residual toy_mfem (toy_dst\<lparr>f_transf := ft\<rparr>) 0 1 [5, 6] 1 0 = [0, - 5]"
  by (simp add: transfer_residual_def GetCutOffSolution_def cutoff_pmlh_2D toy_fields toy_ops Let_def
      toy_cutoff_def toy_matrix_def)

lemma toy_short_GetPatchId: "GetPatchId toy_short [i, j] = Inr (i + 2 * j)"
  by (simp add: toy_short_def toy_GetPatchId)

lemma toy_short_residual: "transfer_residual toy_mfem toy_short 0 1 [5, 6] 1 0 = [0, - 5]"
  by (simp add: toy_short_def toy_transfer_residual)

lemma toy_short_none:
  "first_aligned (sweeps toy_dst) 4 3 0 1 = None"
  "first_aligned (sweeps toy_dst) 4 3 1 0 = None"
  "first_aligned (sweeps toy_dst) 4 3 1 1 = None"
  by (simp_all add: first_aligned_def aligned_def toy_sweeps upto_rec1)

lemma toy_short_Getijk: "Getijk toy_short 0 = Inr (0, 0, 0)"
  by (simp add: Getijk_def toy_short_fields signed_divide_int_def signed_modulo_int_def)

lemma toy_short_transfer_to:
  "transfer_to toy_mfem 3 0 [5, 6] 1 0 1 0 toy_short = Inr toy_short"
  by (simp add: transfer_to_def toy_short_GetPatchId toy_short_fields deliver_first_aligned_eq
      toy_short_none)

lemma toy_short_TransferSources: "TransferSources toy_mfem 3 0 [5, 6] toy_short = Inr toy_short"
  by (simp add: TransferSources_def toy_short_Getijk transfer_to_def toy_short_GetPatchId
      toy_short_fields deliver_first_aligned_eq toy_short_none)

text \<open>
  C8, as stated, has every mismatch of sizes abort. The comparison of line 355 stands inside
  the scan, before the addition; when the scan runs out without a receiving sweep, nothing is
  compared. In sweep 3 the transfer of patch 0 to its neighbour 1 at offset \<open>(1, 0)\<close> has no
  receiving sweep: with buffers of one entry and a residual of two, the step of the loop and
  the whole call return the object as it was.
\<close>

theorem TransferSources_mismatch_unnoticed:
  "GetPatchId toy_short [1, 0] = Inr 1
   \<and> vsize toy_mfem (transfer_residual toy_mfem toy_short 0 1 [5, 6] 1 0) = 2
   \<and> (\<forall>l. vsize toy_mfem (f_transf toy_short 1 l) = 1)
   \<and> transfer_to toy_mfem 3 0 [5, 6] 1 0 1 0 toy_short = Inr toy_short
   \<and> TransferSources toy_mfem 3 0 [5, 6] toy_short = Inr toy_short"
  by (simp add: toy_short_GetPatchId toy_short_residual toy_short_fields toy_ops
      toy_short_transfer_to toy_short_TransferSources)

text \<open>
  C8, amended. In \<open>TransferSources\<close>, for a neighbour \<open>ip1\<close> inside the grid, the transfer
  residual gathered into the indexing of \<open>ip1\<close> is compared in size with the buffer it is about
  to be added to, the buffer of \<open>ip1\<close> for the sweep \<open>l'\<close> the scan has stopped at: when the
  sizes differ the call aborts with the message of the assertion, and only when they are
  equal is the residual added. When the scan finds no receiving sweep, nothing is compared
  and nothing is added, whatever the sizes. In sweep 0, the sweep \<open>Mult\<close> calls it for, the
  scan stops at a sweep for every offset, so a residual of a size other than that of the
  buffers of \<open>ip1\<close> always aborts.
\<close>

theorem transfer_to_size_check:
  assumes "\<not> (i = 0 \<and> j = 0)" and "0 \<le> j0 + j" and "j0 + j < nxyz st ! 1"
    and "GetPatchId st [i1, j0 + j] = Inr ip1"
  shows "transfer_to env sweep ip0 sol0 i1 j0 i j st =
           (case first_aligned (sweeps st) (nsweeps st) sweep i j of
              None \<Rightarrow> Inr st
            | Some l' \<Rightarrow>
                if vsize env (f_transf st ip1 l') \<noteq> vsize env (transfer_residual env st ip0 ip1 sol0 i j)
                then Inl (MFEM_Abort ''Transfer Sources: inconsistent size'')
                else Inr (accumulate env ip1 l' (transfer_residual env st ip0 ip1 sol0 i j) st))
         \<and> (sweep = 0 \<and> sweeps st = set_sweeps sw0 \<and> nsweeps st = 4
              \<and> i \<in> {- 1, 0, 1} \<and> j \<in> {- 1, 0, 1}
              \<and> (\<forall>l. vsize env (f_transf st ip1 l) \<noteq> vsize env (transfer_residual env st ip0 ip1 sol0 i j))
            \<longrightarrow> transfer_to env sweep ip0 sol0 i1 j0 i j st
                  = Inl (MFEM_Abort ''Transfer Sources: inconsistent size''))"
proof (intro conjI impI)
  show "transfer_to env sweep ip0 sol0 i1 j0 i j st =
           (case first_aligned (sweeps st) (nsweeps st) sweep i j of
              None \<Rightarrow> Inr st
            | Some l' \<Rightarrow>
                if vsize env (f_transf st ip1 l') \<noteq> vsize env (transfer_residual env st ip0 ip1 sol0 i j)
                then Inl (MFEM_Abort ''Transfer Sources: inconsistent size'')
                else Inr (accumulate env ip1 l' (transfer_residual env st ip0 ip1 sol0 i j) st))"
    using assms by (simp add: transfer_to_deliver deliver_first_aligned_eq)
next
  assume h: "sweep = 0 \<and> sweeps st = set_sweeps sw0 \<and> nsweeps st = 4
              \<and> i \<in> {- 1, 0, 1} \<and> j \<in> {- 1, 0, 1}
              \<and> (\<forall>l. vsize env (f_transf st ip1 l) \<noteq> vsize env (transfer_residual env st ip0 ip1 sol0 i j))"
  with assms(1) obtain l' where "first_aligned (sweeps st) (nsweeps st) sweep i j = Some l'"
    using first_aligned_sweep_0 [of i j sw0] by auto
  with h assms show "transfer_to env sweep ip0 sol0 i1 j0 i j st
                  = Inl (MFEM_Abort ''Transfer Sources: inconsistent size'')"
    by (simp add: transfer_to_deliver deliver_first_aligned_eq)
qed

theorem transfer_to_size_check_witness:
  "transfer_to toy_mfem 0 0 [5, 6] 1 0 1 0 toy_dst = Inr (accumulate toy_mfem 1 0 [0, - 5] toy_dst)
   \<and> transfer_to toy_mfem 0 0 [5, 6] 1 0 1 0 toy_short
       = Inl (MFEM_Abort ''Transfer Sources: inconsistent size'')
   \<and> transfer_to toy_mfem 3 0 [5, 6] 1 0 1 0 toy_short = Inr toy_short"
proof -
  have g: "GetPatchId toy_dst [1, 0 + 0] = Inr 1"
    using toy_GetPatchId [of "f_transf toy_dst" 1 0] by simp
  have g': "GetPatchId toy_short [1, 0 + 0] = Inr 1"
    by (simp add: toy_short_GetPatchId)
  have r: "transfer_residual toy_mfem toy_dst 0 1 [5, 6] 1 0 = [0, - 5]"
    using toy_transfer_residual [of "f_transf toy_dst"] by simp
  have a: "first_aligned (sweeps toy_dst) 4 0 1 0 = Some 0"
    by (simp add: first_aligned_def aligned_def toy_sweeps upto_rec1)
  have "transfer_to toy_mfem 0 0 [5, 6] 1 0 1 0 toy_dst = Inr (accumulate toy_mfem 1 0 [0, - 5] toy_dst)"
    using transfer_to_size_check [of 1 0 0 toy_dst 1 1 toy_mfem 0 0 "[5, 6]" "\<lambda>l c. 0", OF _ _ _ g]
    by (simp add: toy_fields toy_ops r a)
  moreover have "transfer_to toy_mfem 0 0 [5, 6] 1 0 1 0 toy_short
       = Inl (MFEM_Abort ''Transfer Sources: inconsistent size'')"
    using transfer_to_size_check [of 1 0 0 toy_short 1 1 toy_mfem 0 0 "[5, 6]" "\<lambda>l c. 0", OF _ _ _ g']
    by (simp add: toy_short_fields toy_ops toy_short_residual a)
  moreover have "transfer_to toy_mfem 3 0 [5, 6] 1 0 1 0 toy_short = Inr toy_short"
    using transfer_to_size_check [of 1 0 0 toy_short 1 1 toy_mfem 3 0 "[5, 6]" "\<lambda>l c. 0", OF _ _ _ g']
    by (simp add: toy_short_fields toy_short_none)
  ultimately show ?thesis by simp
qed

subsection \<open>The skip of a patch\<close>

declare visit_patch.simps [simp del] solve_patch.simps [simp del]

text \<open>
  C4. At a visited patch \<open>p\<close> in sweep \<open>l\<close> the local residual is a vector of zeros to which
  the original source of \<open>p\<close> is added when \<open>l\<close> is 0, and then the transfer source of \<open>p\<close> for
  sweep \<open>l\<close>. When the test of its norm against the threshold holds, the visit returns the
  object, the output and the work vector as they were: nothing is solved, transferred or
  added. Otherwise the visit is the local solve with its transfers and its correction.
\<close>

theorem visit_patch_skip:
  assumes "GetPatchId st [i, j] = Inr p"
  shows "local_residual env st l p =
           vadd env
             (if l = 0
              then vadd env (fill0 env (vnew env (int (length (Dof2GlobalDof (ovlp_prob st) p))))) (f_orig st p)
              else fill0 env (vnew env (int (length (Dof2GlobalDof (ovlp_prob st) p)))))
             (f_transf st p l)
         \<and> (norml2_below env (local_residual env st l p) \<longrightarrow>
              visit_patch env l (i, j) (st, z, znew) = Inr (st, z, znew))
         \<and> (\<not> norml2_below env (local_residual env st l p) \<longrightarrow>
              visit_patch env l (i, j) (st, z, znew)
                = solve_patch env l i j p (local_residual env st l p) (st, z, znew))"
  using assms by (simp add: local_residual_def Let_def visit_patch.simps)

theorem visit_patch_skip_witness:
  "GetPatchId (toy_dst\<lparr>f_transf := \<lambda>ip l. [0, 0]\<rparr>) [1, 0] = Inr 1
   \<and> local_residual toy_mfem (toy_dst\<lparr>f_transf := \<lambda>ip l. [0, 0]\<rparr>) 0 1 = [0, 0]
   \<and> norml2_below toy_mfem (local_residual toy_mfem (toy_dst\<lparr>f_transf := \<lambda>ip l. [0, 0]\<rparr>) 0 1)
   \<and> visit_patch toy_mfem 0 (1, 0) (toy_dst\<lparr>f_transf := \<lambda>ip l. [0, 0]\<rparr>, [1, 2, 3, 4], [0, 0, 0, 0])
       = Inr (toy_dst\<lparr>f_transf := \<lambda>ip l. [0, 0]\<rparr>, [1, 2, 3, 4], [0, 0, 0, 0])
   \<and> local_residual toy_mfem toy_dst 0 1 = [7, 7]
   \<and> \<not> norml2_below toy_mfem (local_residual toy_mfem toy_dst 0 1)
   \<and> visit_patch toy_mfem 0 (1, 0) (toy_dst, [1, 2, 3, 4], [0, 0, 0, 0])
       = solve_patch toy_mfem 0 1 0 1 [7, 7] (toy_dst, [1, 2, 3, 4], [0, 0, 0, 0])"
proof -
  have g: "GetPatchId (toy_dst\<lparr>f_transf := \<lambda>ip l. [0, 0]\<rparr>) [1, 0] = Inr 1"
    using toy_GetPatchId [of "\<lambda>ip l. [0, 0]" 1 0] by simp
  have g': "GetPatchId toy_dst [1, 0] = Inr 1"
    using toy_GetPatchId [of "f_transf toy_dst" 1 0] by simp
  have r: "local_residual toy_mfem (toy_dst\<lparr>f_transf := \<lambda>ip l. [0, 0]\<rparr>) 0 1 = [0, 0]"
    by (simp add: local_residual_def toy_fields toy_ops Let_def numeral_2_eq_2)
  have r': "local_residual toy_mfem toy_dst 0 1 = [7, 7]"
    by (simp add: local_residual_def toy_fields toy_ops Let_def numeral_2_eq_2)
  have n: "norml2_below toy_mfem [0, 0]" "\<not> norml2_below toy_mfem [7, 7]"
    by (simp_all add: toy_ops)
  from n r visit_patch_skip [OF g, of toy_mfem 0 "[1, 2, 3, 4]" "[0, 0, 0, 0]"]
  have s: "visit_patch toy_mfem 0 (1, 0) (toy_dst\<lparr>f_transf := \<lambda>ip l. [0, 0]\<rparr>, [1, 2, 3, 4], [0, 0, 0, 0])
       = Inr (toy_dst\<lparr>f_transf := \<lambda>ip l. [0, 0]\<rparr>, [1, 2, 3, 4], [0, 0, 0, 0])"
    by simp
  from n r' visit_patch_skip [OF g', of toy_mfem 0 "[1, 2, 3, 4]" "[0, 0, 0, 0]"]
  have s': "visit_patch toy_mfem 0 (1, 0) (toy_dst, [1, 2, 3, 4], [0, 0, 0, 0])
       = solve_patch toy_mfem 0 1 0 1 [7, 7] (toy_dst, [1, 2, 3, 4], [0, 0, 0, 0])"
    by simp
  from g r r' n s s' show ?thesis
    by simp
qed

subsection \<open>The grid of the constructor\<close>

text \<open>
  C10. The constructor asks the partitioner for a grid of 2 by 2 by 1 patches, whatever its
  arguments are: of the arguments only the form (for its mesh) and the number of layers reach
  the partitioner. The object takes its grid, its number of patches and its table of patch
  numbers from that partition; a partitioner that returns the counts it was asked for gives
  every object the grid \<open>[2, 2, 1]\<close>.
\<close>

theorem DST_ctor_grid:
  "povlp (DST_ctor env b P om w nl sw0) = new_MeshPartition env b 2 2 2 1 nl
   \<and> povlp (DST_ctor env b P om w nl sw0) = povlp (DST_ctor env b P' om' w' nl sw0')
   \<and> nxyz (DST_ctor env b P om w nl sw0)
       = [p_nxyz (new_MeshPartition env b 2 2 2 1 nl) ! 0,
          p_nxyz (new_MeshPartition env b 2 2 2 1 nl) ! 1,
          p_nxyz (new_MeshPartition env b 2 2 2 1 nl) ! 2]
   \<and> nrpatch (DST_ctor env b P om w nl sw0) = p_nrpatch (new_MeshPartition env b 2 2 2 1 nl)
   \<and> subdomains (DST_ctor env b P om w nl sw0) = p_subdomains (new_MeshPartition env b 2 2 2 1 nl)
   \<and> (p_nxyz (new_MeshPartition env b 2 2 2 1 nl) = [2, 2, 1] \<longrightarrow>
        nxyz (DST_ctor env b P om w nl sw0) = [2, 2, 1])"
  by (simp add: DST_ctor_def Let_def)

theorem DST_ctor_grid_witness:
  "p_nxyz (new_MeshPartition toy_mfem () 2 2 2 1 1) = [2, 2, 1]
   \<and> nxyz (DST_ctor toy_mfem () [] 1 () 1 (\<lambda>l c. 0)) = [2, 2, 1]
   \<and> nrpatch (DST_ctor toy_mfem () [] 1 () 1 (\<lambda>l c. 0)) = 4"
proof -
  have p: "p_nxyz (new_MeshPartition toy_mfem () 2 2 2 1 1) = [2, 2, 1]"
    by (simp add: toy_mfem_def toy_partition_def)
  have n: "p_nrpatch (new_MeshPartition toy_mfem () 2 2 2 1 1) = 4"
    by (simp add: toy_mfem_def toy_partition_def)
  from p n DST_ctor_grid [of toy_mfem "()" "[]" 1 "()" 1 "\<lambda>l c. 0" "[]" 1 "()" "\<lambda>l c. 0"]
  show ?thesis by simp
qed

subsection \<open>The buffers after the reset and the gather\<close>

lemma fold_reset_transf:
  "distinct ls \<Longrightarrow>
   fold (\<lambda>i st. st\<lparr>f_transf := (f_transf st)(ip := (f_transf st ip)(i := fill0 env (f_transf st ip i)))\<rparr>) ls st
     = st\<lparr>f_transf := (f_transf st)(ip := (\<lambda>l. if l \<in> set ls then fill0 env (f_transf st ip l) else f_transf st ip l))\<rparr>"
proof (induction ls arbitrary: st)
  case Nil
  show ?case by simp
next
  case (Cons a ls)
  then show ?case
    by (auto simp add: fun_eq_iff intro!: arg_cong [where f = "\<lambda>x. st\<lparr>f_transf := x\<rparr>"])
qed

lemma reset_patch_eq:
  "reset_patch env ip st =
     st\<lparr>f_orig := (f_orig st)(ip := fill0 env (f_orig st ip)),
        f_transf := (f_transf st)(ip := (\<lambda>l. if 0 \<le> l \<and> l < nsweeps st
                                               then fill0 env (f_transf st ip l) else f_transf st ip l))\<rparr>"
  unfolding reset_patch_def
  by (subst fold_reset_transf) (auto simp add: fun_eq_iff
        intro!: arg_cong2 [where f = "\<lambda>x y. st\<lparr>f_orig := x, f_transf := y\<rparr>"])

lemma fold_reset_patch:
  "distinct ps \<Longrightarrow>
   fold (reset_patch env) ps st
     = st\<lparr>f_orig := (\<lambda>ip. if ip \<in> set ps then fill0 env (f_orig st ip) else f_orig st ip),
          f_transf := (\<lambda>ip l. if ip \<in> set ps \<and> 0 \<le> l \<and> l < nsweeps st
                               then fill0 env (f_transf st ip l) else f_transf st ip l)\<rparr>"
proof (induction ps arbitrary: st)
  case Nil
  show ?case by simp
next
  case (Cons a ps)
  from Cons.prems have "fold (reset_patch env) (a # ps) st = fold (reset_patch env) ps (reset_patch env a st)"
    by simp
  also from Cons.prems have "\<dots> =
      (reset_patch env a st)\<lparr>f_orig := (\<lambda>ip. if ip \<in> set ps then fill0 env (f_orig (reset_patch env a st) ip)
                                               else f_orig (reset_patch env a st) ip),
          f_transf := (\<lambda>ip l. if ip \<in> set ps \<and> 0 \<le> l \<and> l < nsweeps (reset_patch env a st)
                               then fill0 env (f_transf (reset_patch env a st) ip l)
                               else f_transf (reset_patch env a st) ip l)\<rparr>"
    by (intro Cons.IH) simp
  also from Cons.prems have "\<dots> =
      st\<lparr>f_orig := (\<lambda>ip. if ip \<in> set (a # ps) then fill0 env (f_orig st ip) else f_orig st ip),
          f_transf := (\<lambda>ip l. if ip \<in> set (a # ps) \<and> 0 \<le> l \<and> l < nsweeps st
                               then fill0 env (f_transf st ip l) else f_transf st ip l)\<rparr>"
    by (auto simp add: reset_patch_eq fun_eq_iff
        intro!: arg_cong2 [where f = "\<lambda>x y. st\<lparr>f_orig := x, f_transf := y\<rparr>"])
  finally show ?case .
qed

lemma reset_sources_eq:
  "reset_sources env st =
     st\<lparr>f_orig := (\<lambda>ip. if 0 \<le> ip \<and> ip < nrpatch st then fill0 env (f_orig st ip) else f_orig st ip),
        f_transf := (\<lambda>ip l. if 0 \<le> ip \<and> ip < nrpatch st \<and> 0 \<le> l \<and> l < nsweeps st
                             then fill0 env (f_transf st ip l) else f_transf st ip l)\<rparr>"
  unfolding reset_sources_def
  by (subst fold_reset_patch) (auto simp add: fun_eq_iff
        intro!: arg_cong2 [where f = "\<lambda>x y. st\<lparr>f_orig := x, f_transf := y\<rparr>"])

lemma fold_scatter_patch:
  "fold (scatter_patch env r) ps st
     = st\<lparr>f_orig := (\<lambda>ip. if ip \<in> set ps then get_sub env r (Dof2GlobalDof (ovlp_prob st) ip) else f_orig st ip)\<rparr>"
proof (induction ps arbitrary: st)
  case Nil
  show ?case by simp
next
  case (Cons a ps)
  have "fold (scatter_patch env r) (a # ps) st = fold (scatter_patch env r) ps (scatter_patch env r a st)"
    by simp
  also have "\<dots> = (scatter_patch env r a st)\<lparr>f_orig :=
        (\<lambda>ip. if ip \<in> set ps then get_sub env r (Dof2GlobalDof (ovlp_prob (scatter_patch env r a st)) ip)
               else f_orig (scatter_patch env r a st) ip)\<rparr>"
    by (rule Cons.IH)
  also have "\<dots> = st\<lparr>f_orig := (\<lambda>ip. if ip \<in> set (a # ps) then get_sub env r (Dof2GlobalDof (ovlp_prob st) ip) else f_orig st ip)\<rparr>"
    by (auto simp add: scatter_patch_def fun_eq_iff intro!: arg_cong [where f = "\<lambda>x. st\<lparr>f_orig := x\<rparr>"])
  finally show ?case .
qed

lemma scatter_sources_eq:
  "scatter_sources env r st =
     st\<lparr>f_orig := (\<lambda>ip. if 0 \<le> ip \<and> ip < nrpatch st
                         then get_sub env r (Dof2GlobalDof (ovlp_prob st) ip) else f_orig st ip)\<rparr>"
  unfolding scatter_sources_def
  by (subst fold_scatter_patch) (auto simp add: fun_eq_iff intro!: arg_cong [where f = "\<lambda>x. st\<lparr>f_orig := x\<rparr>"])

lemma prepared_eq:
  "scatter_sources env r (reset_sources env st) =
     st\<lparr>f_orig := (\<lambda>ip. if 0 \<le> ip \<and> ip < nrpatch st
                         then get_sub env r (Dof2GlobalDof (ovlp_prob st) ip) else f_orig st ip),
        f_transf := (\<lambda>ip l. if 0 \<le> ip \<and> ip < nrpatch st \<and> 0 \<le> l \<and> l < nsweeps st
                             then fill0 env (f_transf st ip l) else f_transf st ip l)\<rparr>"
  by (simp add: scatter_sources_eq reset_sources_eq fun_eq_iff)

lemma Mult_eq:
  "Mult env r z st =
     (case sweep_pass env (nxyz st ! 0) (nxyz st ! 1) 0
             (scatter_sources env r (reset_sources env st), fill0 env z, fill0 env z) of
        Inl e \<Rightarrow> Inl e
      | Inr (st', z', znew') \<Rightarrow> Inr (st', z'))"
  by (simp add: Mult_def Let_def prepared_eq split: sum.splits)


subsection \<open>The zero residual\<close>

lemma foldE_id: "(\<And>x. x \<in> set xs \<Longrightarrow> f x s = Inr s) \<Longrightarrow> foldE f xs s = Inr s"
  by (induction xs) simp_all

lemma GetPatchId_2D: "dim st = 2 \<Longrightarrow> GetPatchId st [i, j] = Inr (subdomains st i j 0)"
  by (simp add: GetPatchId_def)

lemma zero_local_residual:
  assumes vl: "vector_laws env" and zl: "zero_laws env" and zr: "zero_on env st r"
    and bs: "buffers_sized env st" and ns: "0 < nsweeps st"
    and ip: "0 \<le> ip" "ip < nrpatch st"
  shows "norml2_below env (local_residual env (scatter_sources env r (reset_sources env st)) 0 ip)"
proof -
  let ?n = "int (length (Dof2GlobalDof (ovlp_prob st) ip))"
  let ?Z = "fill0 env (vnew env ?n)"
  let ?G = "get_sub env r (Dof2GlobalDof (ovlp_prob st) ip)"
  let ?T = "fill0 env (f_transf st ip 0)"
  from vl have idem: "fill0 env (fill0 env v) = fill0 env v" and keep: "vsize env (fill0 env v) = vsize env v" for v
    by (simp_all add: vector_laws_def)
  from zl have fresh: "vsize env ?Z = ?n"
    by (simp add: zero_laws_def)
  from zl have add0: "vsize env a = vsize env b \<Longrightarrow> fill0 env a = a \<Longrightarrow> fill0 env b = b \<Longrightarrow> vadd env a b = a" for a b
    by (simp add: zero_laws_def)
  from zl have below: "fill0 env v = v \<Longrightarrow> norml2_below env v" for v
    by (simp add: zero_laws_def)
  from zr ip have G: "fill0 env ?G = ?G" "vsize env ?G = ?n"
    by (simp_all add: zero_on_def)
  from bs ip have T: "vsize env ?T = ?n"
    by (simp add: buffers_sized_def keep)
  from ip ns have "local_residual env (scatter_sources env r (reset_sources env st)) 0 ip = vadd env (vadd env ?Z ?G) ?T"
    by (simp add: local_residual_def prepared_eq Let_def)
  also have "vadd env ?Z ?G = ?Z"
    by (rule add0) (simp_all add: fresh G idem)
  also have "vadd env ?Z ?T = ?Z"
    by (rule add0) (simp_all add: fresh T idem)
  finally show ?thesis
    by (simp add: below idem)
qed

text \<open>
  C6. For the all-zero residual, on an object for two dimensions whose table of patch numbers
  maps the grid into the patches and whose buffers have the sizes of the patches, \<open>Mult\<close>
  returns the output vector zeroed and nothing else: the local residual of every patch of the
  grid passes the test of the norm, every visit is a skip, and the object is left as the
  reset and the gather made it.
\<close>

theorem Mult_zero_residual:
  assumes "vector_laws env" and "zero_laws env" and "zero_on env st r"
    and "buffers_sized env st" and "patch_ids_ok st" and "dim st = 2" and "0 < nsweeps st"
  shows "Mult env r z st = Inr (scatter_sources env r (reset_sources env st), fill0 env z)
         \<and> (\<forall>i j. 0 \<le> i \<and> i < nxyz st ! 0 \<and> 0 \<le> j \<and> j < nxyz st ! 1 \<longrightarrow>
               norml2_below env (local_residual env (scatter_sources env r (reset_sources env st)) 0 (subdomains st i j 0)))"
proof -
  let ?s0 = "scatter_sources env r (reset_sources env st)"
  have res: "norml2_below env (local_residual env ?s0 0 (subdomains st i j 0))"
    if "0 \<le> i \<and> i < nxyz st ! 0 \<and> 0 \<le> j \<and> j < nxyz st ! 1" for i j
  proof -
    from that assms(5) have "0 \<le> subdomains st i j 0" "subdomains st i j 0 < nrpatch st"
      by (simp_all add: patch_ids_ok_def)
    with assms show ?thesis
      by (intro zero_local_residual)
  qed
  have skip: "visit_patch env 0 x (?s0, fill0 env z, fill0 env z) = Inr (?s0, fill0 env z, fill0 env z)"
    if "x \<in> set (sweep_order 0 (nxyz st ! 0) (nxyz st ! 1))" for x
  proof -
    obtain i j where x: "x = (i, j)" by (cases x)
    with that have g: "0 \<le> i \<and> i < nxyz st ! 0 \<and> 0 \<le> j \<and> j < nxyz st ! 1"
      by (simp add: set_sweep_order_0)
    from assms(6) have "GetPatchId ?s0 [i, j] = Inr (subdomains st i j 0)"
      by (simp add: GetPatchId_def prepared_eq)
    with res [OF g] show ?thesis
      by (simp add: x visit_patch.simps)
  qed
  have "sweep_pass env (nxyz st ! 0) (nxyz st ! 1) 0 (?s0, fill0 env z, fill0 env z)
          = Inr (?s0, fill0 env z, fill0 env z)"
    unfolding sweep_pass_order by (rule foldE_id) (rule skip)
  then have "Mult env r z st = Inr (?s0, fill0 env z)"
    by (simp add: Mult_eq)
  with res show ?thesis by blast
qed

lemma map_zero_eq: "map (\<lambda>x. 0::int) v = v \<longleftrightarrow> list_all (\<lambda>x. x = 0) v"
  by (induction v) auto

lemma map2_add_zero:
  "length a = length b \<Longrightarrow> list_all (\<lambda>x. x = 0) b \<Longrightarrow> map2 (+) a b = (a::int list)"
  by (induction a b rule: list_induct2) auto

lemma toy_vector_laws: "vector_laws toy_mfem"
  by (auto simp add: vector_laws_def toy_ops map_replicate_const)

lemma toy_zero_laws: "zero_laws toy_mfem"
  by (auto simp add: zero_laws_def toy_ops map_zero_eq map2_add_zero)

lemma toy_zero_on: "zero_on toy_mfem toy_dst [0, 0, 0, 0, 0, 0]"
proof -
  have z: "[0, 0, 0, 0, 0, 0::int] ! nat k = 0" if "0 \<le> k" "k < 6" for k :: int
  proof -
    from that have "nat k < 6" by simp
    then have "replicate 6 (0::int) ! nat k = 0" by (rule nth_replicate)
    then show ?thesis by (simp add: eval_nat_numeral)
  qed
  have g: "get_sub toy_mfem [0, 0, 0, 0, 0, 0] [a, b] = [0, 0]"
    if "0 \<le> a" "a < 6" "0 \<le> b" "b < 6" for a b
    using z [OF that(1,2)] z [OF that(3,4)] by (simp only: toy_ops list.map)
  show ?thesis
    by (simp add: zero_on_def toy_fields toy_ops(2,3) g)
qed

lemma toy_patch_ids_ok: "patch_ids_ok toy_dst"
  by (simp add: patch_ids_ok_def toy_fields)

lemma toy_buffers_sized: "buffers_sized toy_mfem toy_dst"
  by (simp add: buffers_sized_def toy_fields toy_ops)

theorem Mult_zero_residual_witness:
  "vector_laws toy_mfem \<and> zero_laws toy_mfem \<and> zero_on toy_mfem toy_dst [0, 0, 0, 0, 0, 0]
   \<and> buffers_sized toy_mfem toy_dst \<and> patch_ids_ok toy_dst \<and> dim toy_dst = 2 \<and> 0 < nsweeps toy_dst
   \<and> map_sum id snd (Mult toy_mfem [0, 0, 0, 0, 0, 0] [9, 9, 9, 9, 9, 9] toy_dst) = Inr [0, 0, 0, 0, 0, 0]
   \<and> norml2_below toy_mfem
       (local_residual toy_mfem (scatter_sources toy_mfem [0, 0, 0, 0, 0, 0] (reset_sources toy_mfem toy_dst)) 0
          (subdomains toy_dst 1 1 0))"
proof -
  have d: "dim toy_dst = 2" and n: "0 < nsweeps toy_dst"
    by (simp_all add: toy_fields)
  note t = Mult_zero_residual [OF toy_vector_laws toy_zero_laws toy_zero_on toy_buffers_sized
      toy_patch_ids_ok d n, of "[9, 9, 9, 9, 9, 9]"]
  from t have "map_sum id snd (Mult toy_mfem [0, 0, 0, 0, 0, 0] [9, 9, 9, 9, 9, 9] toy_dst) = Inr [0, 0, 0, 0, 0, 0]"
    by (simp add: toy_ops)
  moreover from t [THEN conjunct2, rule_format, of 1 1] have "norml2_below toy_mfem
       (local_residual toy_mfem (scatter_sources toy_mfem [0, 0, 0, 0, 0, 0] (reset_sources toy_mfem toy_dst)) 0
          (subdomains toy_dst 1 1 0))"
    by (simp add: toy_fields)
  ultimately show ?thesis
    using toy_vector_laws toy_zero_laws toy_zero_on toy_buffers_sized toy_patch_ids_ok d n by simp
qed

subsection \<open>Two applications in a row\<close>

lemma foldE_inv:
  "foldE f xs s = Inr s' \<Longrightarrow> I s \<Longrightarrow>
   (\<And>x s s'. x \<in> set xs \<Longrightarrow> I s \<Longrightarrow> f x s = Inr s' \<Longrightarrow> I s') \<Longrightarrow> I s'"
proof (induction xs arbitrary: s)
  case Nil
  then show ?case by simp
next
  case (Cons x xs)
  from Cons.prems(1) obtain s1 where s1: "f x s = Inr s1" "foldE f xs s1 = Inr s'"
    by (auto split: sum.splits)
  from s1(1) Cons.prems(2) have "I s1"
    by (intro Cons.prems(3) [of x s s1]) simp_all
  with s1(2) show ?case
    by (rule Cons.IH) (auto intro: Cons.prems(3))
qed

lemma keeps_shape_refl: "keeps_shape env s0 s0"
  by (simp add: keeps_shape_def)

lemma keeps_shape_fields:
  assumes "keeps_shape env s0 st"
  shows "nxyz st = nxyz s0" "subdomains st = subdomains s0" "nsweeps st = nsweeps s0"
    "nrpatch st = nrpatch s0" "dim st = dim s0" "sweeps st = sweeps s0"
proof -
  from assms have eq: "s0\<lparr>f_transf := f_transf st\<rparr> = st"
    unfolding keeps_shape_def by (rule conjunct1)
  show "nxyz st = nxyz s0" using arg_cong [OF eq, of nxyz] by simp
  show "subdomains st = subdomains s0" using arg_cong [OF eq, of subdomains] by simp
  show "nsweeps st = nsweeps s0" using arg_cong [OF eq, of nsweeps] by simp
  show "nrpatch st = nrpatch s0" using arg_cong [OF eq, of nrpatch] by simp
  show "dim st = dim s0" using arg_cong [OF eq, of dim] by simp
  show "sweeps st = sweeps s0" using arg_cong [OF eq, of sweeps] by simp
qed

lemma keeps_shape_accumulate:
  assumes vl: "vector_laws env" and k: "keeps_shape env s0 st"
    and r: "0 \<le> ip1" "ip1 < nrpatch s0" "0 \<le> l'" "l' < nsweeps s0"
    and sz: "vsize env (f_transf st ip1 l') = vsize env res"
  shows "keeps_shape env s0 (accumulate env ip1 l' res st)"
proof -
  from vl sz have z: "fill0 env (vadd env (f_transf st ip1 l') res) = fill0 env (f_transf st ip1 l')"
    by (simp add: vector_laws_def)
  from k have eq: "s0\<lparr>f_transf := f_transf st\<rparr> = st"
    unfolding keeps_shape_def by (rule conjunct1)
  from k have sh: "fill0 env (f_transf st ip l) = fill0 env (f_transf s0 ip l)" for ip l
    unfolding keeps_shape_def by blast
  from k have out: "\<not> (0 \<le> ip \<and> ip < nrpatch s0 \<and> 0 \<le> l \<and> l < nsweeps s0) \<Longrightarrow> f_transf st ip l = f_transf s0 ip l" for ip l
    unfolding keeps_shape_def by blast
  have "s0\<lparr>f_transf := f_transf (accumulate env ip1 l' res st)\<rparr> = accumulate env ip1 l' res st"
    by (subst (2) eq [symmetric]) (simp add: accumulate_def)
  moreover have "fill0 env (f_transf (accumulate env ip1 l' res st) ip l) = fill0 env (f_transf s0 ip l)" for ip l
    by (simp add: accumulate_def z sh)
  moreover have "f_transf (accumulate env ip1 l' res st) ip l = f_transf s0 ip l"
    if "\<not> (0 \<le> ip \<and> ip < nrpatch s0 \<and> 0 \<le> l \<and> l < nsweeps s0)" for ip l
    using that r out [of ip l] by (auto simp add: accumulate_def)
  ultimately show ?thesis
    unfolding keeps_shape_def by blast
qed

lemma deliver_keeps_shape:
  assumes vl: "vector_laws env" and k: "keeps_shape env s0 st"
    and r: "0 \<le> ip1" "ip1 < nrpatch s0" "0 \<le> l"
    and d: "deliver env i j ip1 res l st = Inr st'"
  shows "keeps_shape env s0 st'"
proof (cases "first_aligned (sweeps st) (nsweeps st) l i j")
  case None
  with d k show ?thesis
    by (simp add: deliver_first_aligned_eq)
next
  case (Some l')
  with r have l': "0 \<le> l'" "l' < nsweeps s0"
    using first_aligned_range [of "sweeps st" "nsweeps st" l i j l'] keeps_shape_fields(3) [OF k]
    by simp_all
  from d Some have "vsize env (f_transf st ip1 l') = vsize env res" "st' = accumulate env ip1 l' res st"
    by (simp_all add: deliver_first_aligned_eq split: if_splits)
  with vl k r l' show ?thesis
    by (simp add: keeps_shape_accumulate)
qed

lemma GetPatchId_Inr:
  "GetPatchId st [i, j] = Inr ip \<Longrightarrow> ip = subdomains st i j 0"
  by (simp add: GetPatchId_def split: if_splits)

lemma transfer_to_keeps_shape:
  assumes vl: "vector_laws env" and ok: "patch_ids_ok s0" and k: "keeps_shape env s0 st"
    and i1: "0 \<le> i1" "i1 < nxyz s0 ! 0" and sw: "0 \<le> sweep"
    and t: "transfer_to env sweep ip0 sol0 i1 j0 i j st = Inr st'"
  shows "keeps_shape env s0 st'"
proof (cases "(i = 0 \<and> j = 0) \<or> j0 + j < 0 \<or> j0 + j \<ge> nxyz st ! 1")
  case True
  with t k show ?thesis
    by (auto simp add: transfer_to_def Let_def split: if_splits)
next
  case False
  with t obtain ip1 where g: "GetPatchId st [i1, j0 + j] = Inr ip1"
    by (auto simp add: transfer_to_def Let_def split: sum.splits)
  with False t have d: "deliver env i j ip1 (transfer_residual env st ip0 ip1 sol0 i j) sweep st = Inr st'"
    by (auto simp add: transfer_to_def Let_def)
  from GetPatchId_Inr [OF g] have "ip1 = subdomains s0 i1 (j0 + j) 0"
    by (simp add: keeps_shape_fields(2) [OF k])
  with ok i1 False have "0 \<le> ip1" "ip1 < nrpatch s0"
    by (simp_all add: patch_ids_ok_def keeps_shape_fields(1) [OF k])
  with vl k sw d show ?thesis
    by (intro deliver_keeps_shape [OF vl k _ _ sw d])
qed

lemma TransferSources_keeps_shape:
  assumes vl: "vector_laws env" and ok: "patch_ids_ok s0" and k: "keeps_shape env s0 st"
    and sw: "0 \<le> sweep"
    and t: "TransferSources env sweep ip0 sol0 st = Inr st'"
  shows "keeps_shape env s0 st'"
proof -
  from t obtain i0 j0 k0 where ijk: "Getijk st ip0 = Inr (i0, j0, k0)"
    by (auto simp add: TransferSources_def Let_def split: sum.splits)
  let ?inner = "\<lambda>i st'. let i1 = i0 + i
                      in if i1 < 0 \<or> i1 \<ge> nxyz st ! 0 then Inr st'
                         else foldE (\<lambda>j. transfer_to env sweep ip0 sol0 i1 j0 i j) [- 1, 0, 1] st'"
  from t ijk have f: "foldE ?inner [- 1, 0, 1] st = Inr st'"
    by (simp add: TransferSources_def Let_def)
  have step: "keeps_shape env s0 b" if "keeps_shape env s0 a" "?inner i a = Inr b" for i a b
  proof (cases "i0 + i < 0 \<or> i0 + i \<ge> nxyz st ! 0")
    case True
    with that show ?thesis by (simp add: Let_def)
  next
    case False
    with that(2) have "foldE (\<lambda>j. transfer_to env sweep ip0 sol0 (i0 + i) j0 i j) [- 1, 0, 1] a = Inr b"
      by (simp add: Let_def)
    then show ?thesis
    proof (rule foldE_inv [where I = "keeps_shape env s0"])
      show "keeps_shape env s0 a" by (rule that(1))
    next
      fix x s s'
      assume "keeps_shape env s0 s" "transfer_to env sweep ip0 sol0 (i0 + i) j0 i x s = Inr s'"
      with False show "keeps_shape env s0 s'"
        by (intro transfer_to_keeps_shape [OF vl ok _ _ _ sw, of s "i0 + i" ip0 sol0 j0 i x s'])
          (simp_all add: keeps_shape_fields(1) [OF k])
    qed
  qed
  from f k show ?thesis
    by (rule foldE_inv [where I = "keeps_shape env s0"]) (rule step)
qed

lemma visit_patch_keeps_shape:
  assumes vl: "vector_laws env" and ok: "patch_ids_ok s0" and k: "keeps_shape env s0 (fst c)"
    and sw: "0 \<le> l"
    and v: "visit_patch env l x c = Inr c'"
  shows "keeps_shape env s0 (fst c')"
proof -
  obtain i j where x: "x = (i, j)" by (cases x)
  obtain st z znew where c: "c = (st, z, znew)" by (cases c)
  from v obtain ip where g: "GetPatchId st [i, j] = Inr ip"
    by (auto simp add: x c visit_patch.simps split: sum.splits)
  show ?thesis
  proof (cases "norml2_below env (local_residual env st l ip)")
    case True
    with v g k show ?thesis
      by (simp add: x c visit_patch.simps)
  next
    case False
    with v g have s: "solve_patch env l i j ip (local_residual env st l ip) (st, z, znew) = Inr c'"
      by (simp add: x c visit_patch.simps)
    then obtain st' where t: "TransferSources env l ip (PmlMatInv st ip (local_residual env st l ip)) st = Inr st'"
      and c': "fst c' = st'"
      by (auto simp add: solve_patch.simps Let_def split: sum.splits)
    from k have "keeps_shape env s0 st" by (simp add: c)
    with vl ok sw t have "keeps_shape env s0 st'"
      by (intro TransferSources_keeps_shape [OF vl ok _ sw t])
    with c' show ?thesis by simp
  qed
qed

lemma sweep_pass_keeps_shape:
  assumes vl: "vector_laws env" and ok: "patch_ids_ok s0" and sw: "0 \<le> l"
    and p: "sweep_pass env nx ny l (s0, z, znew) = Inr c'"
  shows "keeps_shape env s0 (fst c')"
proof -
  from p have "foldE (visit_patch env l) (sweep_order l nx ny) (s0, z, znew) = Inr c'"
    by (simp add: sweep_pass_order)
  then show ?thesis
  proof (rule foldE_inv [where I = "\<lambda>c. keeps_shape env s0 (fst c)"])
    show "keeps_shape env s0 (fst (s0, z, znew))"
      by (simp add: keeps_shape_refl)
  next
    fix x s s'
    assume "keeps_shape env s0 (fst s)" "visit_patch env l x s = Inr s'"
    then show "keeps_shape env s0 (fst s')"
      by (rule visit_patch_keeps_shape [OF vl ok _ sw])
  qed
qed


lemma prepared_again:
  assumes vl: "vector_laws env" and k: "keeps_shape env (scatter_sources env r (reset_sources env st)) st1"
  shows "scatter_sources env r (reset_sources env st1) = scatter_sources env r (reset_sources env st)"
proof -
  let ?s0 = "scatter_sources env r (reset_sources env st)"
  from vl have idem: "fill0 env (fill0 env v) = fill0 env v" for v
    by (simp add: vector_laws_def)
  from k have eq: "?s0\<lparr>f_transf := f_transf st1\<rparr> = st1"
    unfolding keeps_shape_def by (rule conjunct1)
  from k have sh: "fill0 env (f_transf st1 ip l) = fill0 env (f_transf ?s0 ip l)" for ip l
    unfolding keeps_shape_def by blast
  from k have out: "\<not> (0 \<le> ip \<and> ip < nrpatch ?s0 \<and> 0 \<le> l \<and> l < nsweeps ?s0) \<Longrightarrow> f_transf st1 ip l = f_transf ?s0 ip l" for ip l
    unfolding keeps_shape_def by blast
  have "scatter_sources env r (reset_sources env (?s0\<lparr>f_transf := f_transf st1\<rparr>)) = ?s0"
    using out sh
    by (auto simp add: prepared_eq fun_eq_iff idem
        intro!: arg_cong2 [where f = "\<lambda>x y. st\<lparr>f_orig := x, f_transf := y\<rparr>"])
  then show ?thesis
    by (simp only: eq)
qed

text \<open>
  C9. A second application of \<open>Mult\<close> to the object as a first application has left it, with
  the same residual and an output vector of the same shape, returns the same output and
  leaves the object in the same state: the buffers the first call wrote are zeroed or
  overwritten before they are read, so the output is a function of the residual and of what
  the constructor has set.
\<close>

theorem Mult_twice:
  assumes "vector_laws env" and "patch_ids_ok st"
    and "Mult env r z st = Inr (st1, z1)" and "fill0 env z' = fill0 env z"
  shows "Mult env r z' st1 = Inr (st1, z1)"
proof -
  let ?s0 = "scatter_sources env r (reset_sources env st)"
  from assms(3) obtain zn where p: "sweep_pass env (nxyz st ! 0) (nxyz st ! 1) 0 (?s0, fill0 env z, fill0 env z) = Inr (st1, z1, zn)"
    by (auto simp add: Mult_eq split: sum.splits)
  from assms(2) have ok: "patch_ids_ok ?s0"
    by (simp add: patch_ids_ok_def prepared_eq)
  from p have k: "keeps_shape env ?s0 st1"
    using sweep_pass_keeps_shape [OF assms(1) ok _ p] by simp
  have n: "nxyz st1 = nxyz st"
    using keeps_shape_fields(1) [OF k] by (simp add: prepared_eq)
  from p show ?thesis
    by (simp add: Mult_eq prepared_again [OF assms(1) k] n assms(4))
qed

lemma accumulate_fields:
  "nxyz (accumulate env p l res st) = nxyz st"
  "dim (accumulate env p l res st) = dim st"
  "nrpatch (accumulate env p l res st) = nrpatch st"
  "subdomains (accumulate env p l res st) = subdomains st"
  "nsweeps (accumulate env p l res st) = nsweeps st"
  "sweeps (accumulate env p l res st) = sweeps st"
  "nrlayers (accumulate env p l res st) = nrlayers st"
  "bf (accumulate env p l res st) = bf st"
  "povlp (accumulate env p l res st) = povlp st"
  "ovlp_prob (accumulate env p l res st) = ovlp_prob st"
  "PmlMat (accumulate env p l res st) = PmlMat st"
  "PmlMatInv (accumulate env p l res st) = PmlMatInv st"
  "f_orig (accumulate env p l res st) = f_orig st"
  "f_transf (accumulate env p l res st) q m =
     (if q = p \<and> m = l then vadd env (f_transf st p l) res else f_transf st q m)"
  by (simp_all add: accumulate_def)

lemma toy_prepared_fields:
  "dim toy_prepared = 2"
  "nxyz toy_prepared = [2, 2, 1]"
  "nrpatch toy_prepared = 4"
  "nsweeps toy_prepared = 4"
  "nrlayers toy_prepared = 1"
  "patch_h (povlp toy_prepared) ip = 1"
  "subdomains toy_prepared i j k = i + 2 * j + 4 * k"
  "Dof2GlobalDof (ovlp_prob toy_prepared) ip = [ip mod 4 + 1, ip mod 4]"
  "PmlMat toy_prepared ip = toy_matrix"
  "PmlMatInv toy_prepared ip = toy_solver"
  "sweeps toy_prepared = sweeps toy_dst"
  "f_orig toy_prepared 0 = [0, 0]"
  "f_orig toy_prepared 1 = [0, 0]"
  "f_orig toy_prepared 2 = [0, 0]"
  "f_orig toy_prepared 3 = [5, 0]"
  "f_transf toy_prepared ip l = (if 0 \<le> ip \<and> ip < 4 \<and> 0 \<le> l \<and> l < 4 then [0, 0] else [7, 7])"
  by (simp_all add: toy_prepared_def toy_r_def prepared_eq toy_fields toy_ops)

lemma toy_skips:
  "visit_patch toy_mfem 0 (0, 0) (toy_prepared, z, znew) = Inr (toy_prepared, z, znew)"
  "visit_patch toy_mfem 0 (0, 1) (toy_prepared, z, znew) = Inr (toy_prepared, z, znew)"
  "visit_patch toy_mfem 0 (1, 0) (toy_prepared, z, znew) = Inr (toy_prepared, z, znew)"
  by (simp_all add: visit_patch.simps GetPatchId_def local_residual_def Let_def
      toy_prepared_fields toy_ops numeral_2_eq_2)

lemma toy_residual_3: "local_residual toy_mfem toy_prepared 0 3 = [5, 0]"
  by (simp add: local_residual_def Let_def toy_prepared_fields toy_ops numeral_2_eq_2)


lemma toy_Getijk_3: "Getijk toy_prepared 3 = Inr (1, 1, 0)"
  by (simp add: Getijk_def toy_prepared_fields signed_divide_int_def signed_modulo_int_def)

lemma toy_transfers: "TransferSources toy_mfem 0 3 [5, - 5] toy_prepared = Inr toy_after"
  by (simp add: toy_after_def TransferSources_def toy_Getijk_3 transfer_to_def GetPatchId_def Let_def
      transfer_residual_def GetCutOffSolution_def cutoff_pmlh_2D toy_cutoff_def toy_matrix_def
      toy_ops accumulate_fields toy_prepared_fields deliver_first_aligned_eq first_aligned_def
      aligned_def toy_sweeps upto_rec1)

lemma toy_correction:
  "add_correction toy_mfem toy_after 1 1 3 [5, - 5] [0, 0, 0, 0, 0, 0] [0, 0, 0, 0, 0, 0]
     = ([0, 0, 0, - 5, 0, 0], [0, 0, 0, - 5, 0, 0])"
  by (simp add: add_correction_def toy_after_def Let_def GetCutOffSolution_def cutoff_pmlh_2D
      toy_cutoff_def toy_ops accumulate_fields toy_prepared_fields)

lemma toy_visit_3:
  "visit_patch toy_mfem 0 (1, 1) (toy_prepared, [0, 0, 0, 0, 0, 0], [0, 0, 0, 0, 0, 0])
     = Inr (toy_after, [0, 0, 0, - 5, 0, 0], [0, 0, 0, - 5, 0, 0])"
  by (simp add: visit_patch.simps solve_patch.simps GetPatchId_def toy_prepared_fields toy_residual_3
      toy_ops toy_solver_def toy_transfers toy_correction)

lemma toy_sweep_pass_run:
  "sweep_pass toy_mfem 2 2 0 (toy_prepared, [0, 0, 0, 0, 0, 0], [0, 0, 0, 0, 0, 0])
     = Inr (toy_after, [0, 0, 0, - 5, 0, 0], [0, 0, 0, - 5, 0, 0])"
  by (simp add: sweep_pass_order sweep_order_0_2_2 toy_skips toy_visit_3)

lemma toy_Mult_run: "Mult toy_mfem toy_r [9, 9, 9, 9, 9, 9] toy_dst = Inr (toy_after, [0, 0, 0, - 5, 0, 0])"
  by (simp add: Mult_eq toy_fields toy_ops toy_prepared_def [symmetric] toy_sweep_pass_run)

lemma toy_after_buffers:
  "f_transf toy_after 2 1 = [5, 0]" "f_transf toy_after 0 3 = [0, 0]" "f_transf toy_after 1 2 = [0, 0]"
  by (simp_all add: toy_after_def accumulate_fields toy_prepared_fields toy_ops)

theorem Mult_twice_witness:
  "vector_laws toy_mfem \<and> patch_ids_ok toy_dst
   \<and> Mult toy_mfem toy_r [9, 9, 9, 9, 9, 9] toy_dst = Inr (toy_after, [0, 0, 0, - 5, 0, 0])
   \<and> fill0 toy_mfem [1, 2, 3, 4, 5, 6] = fill0 toy_mfem [9, 9, 9, 9, 9, 9]
   \<and> Mult toy_mfem toy_r [1, 2, 3, 4, 5, 6] toy_after = Inr (toy_after, [0, 0, 0, - 5, 0, 0])
   \<and> f_transf toy_after 2 1 = [5, 0] \<and> f_transf toy_dst 2 1 = [7, 7]"
proof -
  have f: "fill0 toy_mfem [1, 2, 3, 4, 5, 6] = fill0 toy_mfem [9, 9, 9, 9, 9, 9]"
    by (simp add: toy_ops)
  from Mult_twice [OF toy_vector_laws toy_patch_ids_ok toy_Mult_run f]
    toy_vector_laws toy_patch_ids_ok toy_Mult_run f toy_after_buffers(1) toy_fields
  show ?thesis by simp
qed

subsection \<open>The buffers of the later sweeps\<close>

lemma foldE_rel:
  "R s t \<Longrightarrow> (\<And>x s t. x \<in> set xs \<Longrightarrow> R s t \<Longrightarrow> rel_sum (=) R (f x s) (g x t)) \<Longrightarrow>
   rel_sum (=) R (foldE f xs s) (foldE g xs t)"
proof (induction xs arbitrary: s t)
  case Nil
  then show ?case by simp
next
  case (Cons x xs)
  from Cons.prems have h: "rel_sum (=) R (f x s) (g x t)"
    by simp
  show ?case
  proof (cases "f x s")
    case (Inl e)
    with h show ?thesis
      by (cases "g x t") simp_all
  next
    case (Inr s1)
    with h obtain t1 where t1: "g x t = Inr t1" "R s1 t1"
      by (cases "g x t") simp_all
    from t1(2) have "rel_sum (=) R (foldE f xs s1) (foldE g xs t1)"
      by (rule Cons.IH) (simp add: Cons.prems(2))
    with Inr t1(1) show ?thesis by simp
  qed
qed

lemma agree_refl: "agree_on_sweep_0 env s s"
  by (simp add: agree_on_sweep_0_def)

lemma agree_eq: "agree_on_sweep_0 env s t \<Longrightarrow> s\<lparr>f_transf := f_transf t\<rparr> = t"
  unfolding agree_on_sweep_0_def by (rule conjunct1)

lemma agree_Getijk: "agree_on_sweep_0 env s t \<Longrightarrow> Getijk t = Getijk s"
proof -
  assume a: "agree_on_sweep_0 env s t"
  have "Getijk (s\<lparr>f_transf := f_transf t\<rparr>) = Getijk s"
    by (rule ext) (simp add: Getijk_def)
  then show ?thesis by (simp only: agree_eq [OF a])
qed

lemma agree_GetPatchId: "agree_on_sweep_0 env s t \<Longrightarrow> GetPatchId t = GetPatchId s"
proof -
  assume a: "agree_on_sweep_0 env s t"
  have "GetPatchId (s\<lparr>f_transf := f_transf t\<rparr>) = GetPatchId s"
    by (rule ext) (simp add: GetPatchId_def)
  then show ?thesis by (simp only: agree_eq [OF a])
qed

lemma cutoff_pmlh_upd:
  "cutoff_pmlh env (s\<lparr>f_transf := X\<rparr>) ip directions n = cutoff_pmlh env s ip directions n"
  by (simp add: cutoff_pmlh_def)

lemma GetCutOffSolution_upd:
  "GetCutOffSolution env (s\<lparr>f_transf := X\<rparr>) sol ip directions n local
     = GetCutOffSolution env s sol ip directions n local"
  by (simp add: GetCutOffSolution_def cutoff_pmlh_upd)

lemma agree_transfer_residual:
  "agree_on_sweep_0 env s t \<Longrightarrow>
   transfer_residual env t ip0 ip1 sol0 i j = transfer_residual env s ip0 ip1 sol0 i j"
proof -
  assume a: "agree_on_sweep_0 env s t"
  have "transfer_residual env (s\<lparr>f_transf := f_transf t\<rparr>) ip0 ip1 sol0 i j
          = transfer_residual env s ip0 ip1 sol0 i j"
    by (simp add: transfer_residual_def GetCutOffSolution_upd)
  then show ?thesis by (simp only: agree_eq [OF a])
qed

lemma agree_add_correction:
  "agree_on_sweep_0 env s t \<Longrightarrow>
   add_correction env t i j ip sol z znew = add_correction env s i j ip sol z znew"
proof -
  assume a: "agree_on_sweep_0 env s t"
  have "add_correction env (s\<lparr>f_transf := f_transf t\<rparr>) i j ip sol z znew
          = add_correction env s i j ip sol z znew"
    by (simp add: add_correction_def GetCutOffSolution_upd)
  then show ?thesis by (simp only: agree_eq [OF a])
qed

lemma agree_fields:
  assumes "agree_on_sweep_0 env s t"
  shows "nxyz t = nxyz s" "nsweeps t = nsweeps s" "sweeps t = sweeps s" "PmlMatInv t = PmlMatInv s"
    "f_orig t = f_orig s" "ovlp_prob t = ovlp_prob s"
proof -
  note eq = agree_eq [OF assms]
  show "nxyz t = nxyz s" using arg_cong [OF eq, of nxyz] by simp
  show "nsweeps t = nsweeps s" using arg_cong [OF eq, of nsweeps] by simp
  show "sweeps t = sweeps s" using arg_cong [OF eq, of sweeps] by simp
  show "PmlMatInv t = PmlMatInv s" using arg_cong [OF eq, of PmlMatInv] by simp
  show "f_orig t = f_orig s" using arg_cong [OF eq, of f_orig] by simp
  show "ovlp_prob t = ovlp_prob s" using arg_cong [OF eq, of ovlp_prob] by simp
qed

lemma agree_local_residual:
  assumes "agree_on_sweep_0 env s t"
  shows "local_residual env t 0 ip = local_residual env s 0 ip"
proof -
  from assms have "f_transf t ip 0 = f_transf s ip 0"
    unfolding agree_on_sweep_0_def by blast
  then show ?thesis
    by (simp add: local_residual_def agree_fields [OF assms])
qed

lemma agree_accumulate:
  assumes vl: "vector_laws env" and a: "agree_on_sweep_0 env s t"
    and sz: "vsize env (f_transf s ip1 l') = vsize env res"
  shows "agree_on_sweep_0 env (accumulate env ip1 l' res s) (accumulate env ip1 l' res t)"
proof -
  note eq = agree_eq [OF a]
  from a have z: "f_transf t ip 0 = f_transf s ip 0" for ip
    unfolding agree_on_sweep_0_def by blast
  from a have v: "vsize env (f_transf t ip l) = vsize env (f_transf s ip l)" for ip l
    unfolding agree_on_sweep_0_def by blast
  from vl have keep: "vsize env x = vsize env y \<Longrightarrow> vsize env (vadd env x y) = vsize env x" for x y
    by (simp add: vector_laws_def)
  have "(accumulate env ip1 l' res s)\<lparr>f_transf := f_transf (accumulate env ip1 l' res t)\<rparr>
          = accumulate env ip1 l' res (s\<lparr>f_transf := f_transf t\<rparr>)"
    by (simp add: accumulate_def)
  then have "(accumulate env ip1 l' res s)\<lparr>f_transf := f_transf (accumulate env ip1 l' res t)\<rparr>
          = accumulate env ip1 l' res t"
    by (simp only: eq)
  moreover have "f_transf (accumulate env ip1 l' res t) ip 0 = f_transf (accumulate env ip1 l' res s) ip 0" for ip
    by (simp add: accumulate_fields z)
  moreover have "vsize env (f_transf (accumulate env ip1 l' res t) ip l)
          = vsize env (f_transf (accumulate env ip1 l' res s) ip l)" for ip l
    using sz v [of ip1 l'] by (simp add: accumulate_fields v keep)
  ultimately show ?thesis
    unfolding agree_on_sweep_0_def by blast
qed

lemma deliver_agree:
  assumes vl: "vector_laws env" and a: "agree_on_sweep_0 env s t"
  shows "rel_sum (=) (agree_on_sweep_0 env) (deliver env i j ip1 res l s) (deliver env i j ip1 res l t)"
proof (cases "first_aligned (sweeps s) (nsweeps s) l i j")
  case None
  with a show ?thesis
    by (simp add: deliver_first_aligned_eq agree_fields [OF a])
next
  case (Some l')
  from a have v: "vsize env (f_transf t ip1 l') = vsize env (f_transf s ip1 l')"
    unfolding agree_on_sweep_0_def by blast
  show ?thesis
  proof (cases "vsize env (f_transf s ip1 l') = vsize env res")
    case True
    with Some v agree_accumulate [OF vl a True] show ?thesis
      by (simp add: deliver_first_aligned_eq agree_fields [OF a])
  next
    case False
    with Some v show ?thesis
      by (simp add: deliver_first_aligned_eq agree_fields [OF a])
  qed
qed

lemma transfer_to_agree:
  assumes vl: "vector_laws env" and a: "agree_on_sweep_0 env s t"
  shows "rel_sum (=) (agree_on_sweep_0 env)
           (transfer_to env sweep ip0 sol0 i1 j0 i j s) (transfer_to env sweep ip0 sol0 i1 j0 i j t)"
proof (cases "(i = 0 \<and> j = 0) \<or> j0 + j < 0 \<or> j0 + j \<ge> nxyz s ! 1")
  case True
  with a show ?thesis
    by (auto simp add: transfer_to_def Let_def agree_fields [OF a])
next
  case False
  show ?thesis
  proof (cases "GetPatchId s [i1, j0 + j]")
    case (Inl e)
    with False show ?thesis
      by (auto simp add: transfer_to_def Let_def agree_fields [OF a] agree_GetPatchId [OF a])
  next
    case (Inr ip1)
    with False deliver_agree [OF vl a, of i j ip1 "transfer_residual env s ip0 ip1 sol0 i j" sweep]
    show ?thesis
      by (auto simp add: transfer_to_def Let_def agree_fields [OF a] agree_GetPatchId [OF a]
          agree_transfer_residual [OF a])
  qed
qed

lemma TransferSources_agree:
  assumes vl: "vector_laws env" and a: "agree_on_sweep_0 env s t"
  shows "rel_sum (=) (agree_on_sweep_0 env)
           (TransferSources env sweep ip0 sol0 s) (TransferSources env sweep ip0 sol0 t)"
proof (cases "Getijk s ip0")
  case (Inl e)
  then show ?thesis
    by (simp add: TransferSources_def agree_Getijk [OF a])
next
  case (Inr ijk)
  obtain i0 j0 k0 where ijk: "ijk = (i0, j0, k0)" by (cases ijk)
  let ?body = "\<lambda>i st'. let i1 = i0 + i
                      in if i1 < 0 \<or> i1 \<ge> nxyz s ! 0 then Inr st'
                         else foldE (\<lambda>j. transfer_to env sweep ip0 sol0 i1 j0 i j) [- 1, 0, 1] st'"
  have "rel_sum (=) (agree_on_sweep_0 env) (foldE ?body [- 1, 0, 1] s) (foldE ?body [- 1, 0, 1] t)"
  proof (rule foldE_rel [where R = "agree_on_sweep_0 env"])
    show "agree_on_sweep_0 env s t" by (rule a)
  next
    fix x u v
    assume uv: "agree_on_sweep_0 env u v"
    show "rel_sum (=) (agree_on_sweep_0 env) (?body x u) (?body x v)"
    proof (cases "i0 + x < 0 \<or> i0 + x \<ge> nxyz s ! 0")
      case True
      with uv show ?thesis by (simp add: Let_def)
    next
      case False
      have "rel_sum (=) (agree_on_sweep_0 env)
              (foldE (\<lambda>j. transfer_to env sweep ip0 sol0 (i0 + x) j0 x j) [- 1, 0, 1] u)
              (foldE (\<lambda>j. transfer_to env sweep ip0 sol0 (i0 + x) j0 x j) [- 1, 0, 1] v)"
        by (rule foldE_rel [where R = "agree_on_sweep_0 env"]) (rule uv, rule transfer_to_agree [OF vl])
      with False show ?thesis by (simp add: Let_def)
    qed
  qed
  with Inr ijk show ?thesis
    by (simp add: TransferSources_def agree_Getijk [OF a] agree_fields [OF a] Let_def)
qed

lemma visit_patch_agree:
  assumes vl: "vector_laws env" and a: "agree_on_sweep_0 env (fst c) (fst d)" and e: "snd c = snd d"
  shows "rel_sum (=) (\<lambda>c d. agree_on_sweep_0 env (fst c) (fst d) \<and> snd c = snd d)
           (visit_patch env 0 x c) (visit_patch env 0 x d)"
proof -
  obtain i j where x: "x = (i, j)" by (cases x)
  obtain s z znew where c: "c = (s, z, znew)" by (cases c)
  with e obtain t where d: "d = (t, z, znew)" by (cases d) auto
  from a have st: "agree_on_sweep_0 env s t" by (simp add: c d)
  show ?thesis
  proof (cases "GetPatchId s [i, j]")
    case (Inl err)
    then show ?thesis
      by (simp add: x c d visit_patch.simps agree_GetPatchId [OF st])
  next
    case (Inr ip)
    let ?res = "local_residual env s 0 ip"
    show ?thesis
    proof (cases "norml2_below env ?res")
      case True
      with Inr st show ?thesis
        by (simp add: x c d visit_patch.simps agree_GetPatchId [OF st] agree_local_residual [OF st])
    next
      case False
      from TransferSources_agree [OF vl st, of 0 ip "PmlMatInv s ip ?res"]
      have "rel_sum (=) (\<lambda>c d. agree_on_sweep_0 env (fst c) (fst d) \<and> snd c = snd d)
              (solve_patch env 0 i j ip ?res (s, z, znew)) (solve_patch env 0 i j ip ?res (t, z, znew))"
        by (cases "TransferSources env 0 ip (PmlMatInv s ip ?res) s";
            cases "TransferSources env 0 ip (PmlMatInv s ip ?res) t")
          (simp_all add: solve_patch.simps agree_fields [OF st] agree_add_correction)
      with Inr False show ?thesis
        by (simp add: x c d visit_patch.simps agree_GetPatchId [OF st] agree_local_residual [OF st])
    qed
  qed
qed

lemma sweep_pass_agree:
  fixes env :: "('a, 'b, 'c, 'd) mfem"
  assumes vl: "vector_laws env" and a: "agree_on_sweep_0 env s t"
  shows "rel_sum (=) (\<lambda>c d. agree_on_sweep_0 env (fst c) (fst d) \<and> snd c = snd d)
           (sweep_pass env nx ny 0 (s, z, znew)) (sweep_pass env nx ny 0 (t, z, znew))"
  unfolding sweep_pass_order
proof (rule foldE_rel [where R = "\<lambda>c d. agree_on_sweep_0 env (fst c) (fst d) \<and> snd c = snd d"])
  from a show "agree_on_sweep_0 env (fst (s, z, znew)) (fst (t, z, znew)) \<and> snd (s, z, znew) = snd (t, z, znew)"
    by simp
next
  fix x and c d :: "('a, 'b, 'c, 'd) DST \<times> 'a \<times> 'a"
  assume "agree_on_sweep_0 env (fst c) (fst d) \<and> snd c = snd d"
  then show "rel_sum (=) (\<lambda>c d. agree_on_sweep_0 env (fst c) (fst d) \<and> snd c = snd d)
           (visit_patch env 0 x c) (visit_patch env 0 x d)"
    using visit_patch_agree [OF vl, of c d x] by simp
qed


text \<open>
  C5. \<open>Mult\<close> runs the loops over the fronts and the patches once, for sweep 0, on the object as
  the reset and the gather leave it. On an object with the table of the constructor the
  transfers of sweep 0 at the offsets \<open>(-1, 0)\<close>, \<open>(0, -1)\<close> and \<open>(-1, -1)\<close> are added to the
  buffers of the sweeps 1, 2 and 3. The pass for sweep 0 does not read what these buffers
  hold: started on two objects that differ only in the contents of the buffers of sweeps
  other than 0, it aborts on both with the same message or returns on both, with the same
  output and work vector and with objects that again differ only there.
\<close>

theorem Mult_single_sweep:
  "Mult env r z st =
     (case sweep_pass env (nxyz st ! 0) (nxyz st ! 1) 0
             (scatter_sources env r (reset_sources env st), fill0 env z, fill0 env z) of
        Inl e \<Rightarrow> Inl e
      | Inr (st', z', znew') \<Rightarrow> Inr (st', z'))
   \<and> (sweeps st = set_sweeps sw0 \<and> nsweeps st = 4 \<longrightarrow>
        first_aligned (sweeps st) (nsweeps st) 0 (- 1) 0 = Some 1
        \<and> first_aligned (sweeps st) (nsweeps st) 0 0 (- 1) = Some 2
        \<and> first_aligned (sweeps st) (nsweeps st) 0 (- 1) (- 1) = Some 3
        \<and> (vsize env (f_transf st p 1) = vsize env res \<longrightarrow>
             deliver env (- 1) 0 p res 0 st = Inr (accumulate env p 1 res st))
        \<and> (vsize env (f_transf st p 2) = vsize env res \<longrightarrow>
             deliver env 0 (- 1) p res 0 st = Inr (accumulate env p 2 res st))
        \<and> (vsize env (f_transf st p 3) = vsize env res \<longrightarrow>
             deliver env (- 1) (- 1) p res 0 st = Inr (accumulate env p 3 res st)))
   \<and> (vector_laws env \<and> agree_on_sweep_0 env s t \<longrightarrow>
        rel_sum (=) (\<lambda>c d. agree_on_sweep_0 env (fst c) (fst d) \<and> snd c = snd d)
          (sweep_pass env nx ny 0 (s, w, wnew)) (sweep_pass env nx ny 0 (t, w, wnew)))"
proof (intro conjI impI)
  show "Mult env r z st =
     (case sweep_pass env (nxyz st ! 0) (nxyz st ! 1) 0
             (scatter_sources env r (reset_sources env st), fill0 env z, fill0 env z) of
        Inl e \<Rightarrow> Inl e
      | Inr (st', z', znew') \<Rightarrow> Inr (st', z'))"
    by (rule Mult_eq)
next
  assume h: "sweeps st = set_sweeps sw0 \<and> nsweeps st = 4"
  then show a1: "first_aligned (sweeps st) (nsweeps st) 0 (- 1) 0 = Some 1"
    and a2: "first_aligned (sweeps st) (nsweeps st) 0 0 (- 1) = Some 2"
    and a3: "first_aligned (sweeps st) (nsweeps st) 0 (- 1) (- 1) = Some 3"
    by (simp_all add: first_aligned_def aligned_def set_sweeps_def upto_rec1)
  show "deliver env (- 1) 0 p res 0 st = Inr (accumulate env p 1 res st)"
    if "vsize env (f_transf st p 1) = vsize env res"
    using that by (simp add: deliver_first_aligned_eq a1)
  show "deliver env 0 (- 1) p res 0 st = Inr (accumulate env p 2 res st)"
    if "vsize env (f_transf st p 2) = vsize env res"
    using that by (simp add: deliver_first_aligned_eq a2)
  show "deliver env (- 1) (- 1) p res 0 st = Inr (accumulate env p 3 res st)"
    if "vsize env (f_transf st p 3) = vsize env res"
    using that by (simp add: deliver_first_aligned_eq a3)
next
  assume "vector_laws env \<and> agree_on_sweep_0 env s t"
  then show "rel_sum (=) (\<lambda>c d. agree_on_sweep_0 env (fst c) (fst d) \<and> snd c = snd d)
          (sweep_pass env nx ny 0 (s, w, wnew)) (sweep_pass env nx ny 0 (t, w, wnew))"
    by (simp add: sweep_pass_agree)
qed

lemma toy_agree:
  "agree_on_sweep_0 toy_mfem toy_prepared
     (toy_prepared\<lparr>f_transf := \<lambda>ip l. if l = 0 then f_transf toy_prepared ip 0 else [1, 1]\<rparr>)"
  by (simp add: agree_on_sweep_0_def toy_prepared_fields toy_ops)

theorem Mult_single_sweep_witness:
  "Mult toy_mfem toy_r [9, 9, 9, 9, 9, 9] toy_dst = Inr (toy_after, [0, 0, 0, - 5, 0, 0])
   \<and> sweeps toy_prepared = set_sweeps (\<lambda>l c. 0) \<and> nsweeps toy_prepared = 4
   \<and> vsize toy_mfem (f_transf toy_prepared 2 1) = vsize toy_mfem [5, 0]
   \<and> deliver toy_mfem (- 1) 0 2 [5, 0] 0 toy_prepared = Inr (accumulate toy_mfem 2 1 [5, 0] toy_prepared)
   \<and> f_transf toy_prepared 2 1 = [0, 0] \<and> f_transf toy_after 2 1 = [5, 0]
   \<and> vector_laws toy_mfem
   \<and> agree_on_sweep_0 toy_mfem toy_prepared
        (toy_prepared\<lparr>f_transf := \<lambda>ip l. if l = 0 then f_transf toy_prepared ip 0 else [1, 1]\<rparr>)
   \<and> (\<exists>st'. sweep_pass toy_mfem 2 2 0
               (toy_prepared\<lparr>f_transf := \<lambda>ip l. if l = 0 then f_transf toy_prepared ip 0 else [1, 1]\<rparr>,
                [0, 0, 0, 0, 0, 0], [0, 0, 0, 0, 0, 0])
             = Inr (st', [0, 0, 0, - 5, 0, 0], [0, 0, 0, - 5, 0, 0]))"
proof -
  let ?t = "toy_prepared\<lparr>f_transf := \<lambda>ip l. if l = 0 then f_transf toy_prepared ip 0 else [1, 1]\<rparr>"
  let ?z = "[0, 0, 0, 0, 0, 0::int]"
  note inst = Mult_single_sweep [of toy_mfem toy_r "[9, 9, 9, 9, 9, 9]" toy_dst "\<lambda>l c. 0" 2 "[5, 0]"
      toy_prepared ?t 2 2 ?z ?z]
  have tab: "sweeps toy_prepared = set_sweeps (\<lambda>l c. 0)" "nsweeps toy_prepared = 4"
    by (simp_all add: toy_prepared_fields toy_sweeps_table)
  have sz: "vsize toy_mfem (f_transf toy_prepared 2 1) = vsize toy_mfem [5, 0]"
    by (simp add: toy_prepared_fields toy_ops)
  from inst have m: "Mult toy_mfem toy_r [9, 9, 9, 9, 9, 9] toy_dst = Inr (toy_after, [0, 0, 0, - 5, 0, 0])"
    by (simp add: toy_fields toy_ops toy_prepared_def [symmetric] toy_sweep_pass_run)
  from Mult_single_sweep [of toy_mfem toy_r "[9, 9, 9, 9, 9, 9]" toy_prepared "\<lambda>l c. 0" 2 "[5, 0]"
      toy_prepared ?t 2 2 ?z ?z, THEN conjunct2, THEN conjunct1] tab sz
  have d: "deliver toy_mfem (- 1) 0 2 [5, 0] 0 toy_prepared = Inr (accumulate toy_mfem 2 1 [5, 0] toy_prepared)"
    by blast
  from inst [THEN conjunct2, THEN conjunct2] toy_vector_laws toy_agree
  have "rel_sum (=) (\<lambda>c d. agree_on_sweep_0 toy_mfem (fst c) (fst d) \<and> snd c = snd d)
          (sweep_pass toy_mfem 2 2 0 (toy_prepared, ?z, ?z)) (sweep_pass toy_mfem 2 2 0 (?t, ?z, ?z))"
    by blast
  then have e: "\<exists>st'. sweep_pass toy_mfem 2 2 0 (?t, ?z, ?z) = Inr (st', [0, 0, 0, - 5, 0, 0], [0, 0, 0, - 5, 0, 0])"
    by (cases "sweep_pass toy_mfem 2 2 0 (?t, ?z, ?z)") (auto simp add: toy_sweep_pass_run)
  have b: "f_transf toy_prepared 2 1 = [0, 0]"
    by (simp add: toy_prepared_fields)
  from m tab sz d b toy_after_buffers(1) toy_vector_laws toy_agree e show ?thesis
    by (intro conjI) assumption+
qed

end
